theory Spec2Isabelle
  imports Complex_Main
begin

section \<open>ForgetMult: the forget-gated recurrence of torchqrnn\<close>

text \<open>
  The source file holds three pieces of code: the CUDA kernels
  \<^verbatim>\<open>recurrent_forget_mult\<close> and \<^verbatim>\<open>bwd_recurrent_forget_mult\<close> (a C string),
  the sequential module \<^verbatim>\<open>CPUForgetMult\<close>, and the selector \<^verbatim>\<open>ForgetMult\<close>.
  All three are embedded below.

  Conventions of the embedding.
  \<^item> \<^verbatim>\<open>float\<close> and \<^verbatim>\<open>double\<close> values are real numbers: every statement is about
    exact arithmetic, rounding is not modelled.
  \<^item> A tensor is its shape, its elements in row-major order, and the device that holds
    it. The tensor library is not part of the repository; the operations the module calls
    (\<^verbatim>\<open>*\<close>, \<^verbatim>\<open>+\<close>, \<^verbatim>\<open>1 - t\<close>, \<^verbatim>\<open>split\<close>, \<^verbatim>\<open>view\<close>, \<^verbatim>\<open>stack\<close>) are
    written out with the library's documented behaviour: broadcasting of elementwise
    operations, at least one chunk from \<^verbatim>\<open>split\<close>, an element-count check in
    \<^verbatim>\<open>view\<close>, a non-empty list of equal shapes for \<^verbatim>\<open>stack\<close>. Every failure of the
    library is the value \<open>Inl RuntimeError\<close>. Element types, gradients and the
    recording of operations for differentiation are not modelled.
  \<^item> Python raises are values of the type \<open>error\<close>; \<^verbatim>\<open>assert\<close> statements are
    executed (the interpreter runs without \<^verbatim>\<open>-O\<close>).
  \<^item> Device memory is a list of reals; a kernel access outside a buffer is the value
    \<open>None\<close>.
  \<^item> The kernels compute with the 32-bit C type \<^verbatim>\<open>int\<close>; the embedding computes with
    natural numbers. The two agree in the range \<open>kernel_ints\<close> defined with the kernels
    below (sizes, the largest index and the thread coordinates below \<open>2^31\<close>); outside
    that range the C arithmetic overflows and the embedding says nothing about the code.
    The lemmas are statements about the definitions; every theorem of the section on the
    claims that speaks of a kernel at general sizes has that range as a hypothesis.
\<close>

subsection \<open>Tensors and the library operations used by the module\<close>

datatype device = CPU | CUDA nat

record tensor =
  shape :: "nat list"
  data :: "real list"
  device :: device

datatype error = AssertionError string | NameError string | IndexError | TypeError | RuntimeError

definition is_cuda :: "tensor \<Rightarrow> bool" where
  "is_cuda t = (device t \<noteq> CPU)"

definition numel :: "tensor \<Rightarrow> nat" where
  "numel t = prod_list (shape t)"

text \<open>A tensor is well formed when it holds as many elements as its shape says.\<close>

definition wf_tensor :: "tensor \<Rightarrow> bool" where
  "wf_tensor t = (length (data t) = prod_list (shape t))"

text \<open>
  Broadcasting: the shorter shape is padded with leading ones; two sizes are compatible
  when they are equal or one of them is 1; the result takes the size that is not 1.
\<close>

definition pad_shape :: "nat \<Rightarrow> nat list \<Rightarrow> nat list" where
  "pad_shape k s = replicate (k - length s) 1 @ s"

definition broadcastable :: "nat \<Rightarrow> nat \<Rightarrow> bool" where
  "broadcastable m n = (m = n \<or> m = 1 \<or> n = 1)"

definition broadcast_dim :: "nat \<Rightarrow> nat \<Rightarrow> nat" where
  "broadcast_dim m n = (if m = 1 then n else m)"

definition broadcast_shapes :: "nat list \<Rightarrow> nat list \<Rightarrow> nat list option" where
  "broadcast_shapes a b =
     (let k = max (length a) (length b); a' = pad_shape k a; b' = pad_shape k b
      in if list_all2 broadcastable a' b' then Some (map2 broadcast_dim a' b') else None)"

text \<open>
  \<open>expand tgt src d\<close>: the elements \<open>d\<close> of a tensor of (padded) shape \<open>src\<close>, repeated
  along every dimension of size 1 that the target shape \<open>tgt\<close> enlarges.
\<close>

fun expand :: "nat list \<Rightarrow> nat list \<Rightarrow> real list \<Rightarrow> real list" where
  "expand (n # tgt) (m # src) d =
     (if m = n
      then concat (map (\<lambda>i. expand tgt src (take (prod_list src) (drop (i * prod_list src) d))) [0..<n])
      else concat (replicate n (expand tgt src d)))"
| "expand tgt src d = d"

text \<open>
  Operands live on one device; a zero-dimensional CPU tensor may be combined with a
  tensor on any device.
\<close>

definition common_device :: "tensor \<Rightarrow> tensor \<Rightarrow> device option" where
  "common_device a b =
     (if device a = device b then Some (device a)
      else if shape a = [] \<and> device a = CPU then Some (device b)
      else if shape b = [] \<and> device b = CPU then Some (device a)
      else None)"

definition binop :: "(real \<Rightarrow> real \<Rightarrow> real) \<Rightarrow> tensor \<Rightarrow> tensor \<Rightarrow> error + tensor" where
  "binop f a b =
     (case common_device a b of
        None \<Rightarrow> Inl RuntimeError
      | Some dev \<Rightarrow>
          (case broadcast_shapes (shape a) (shape b) of
             None \<Rightarrow> Inl RuntimeError
           | Some s \<Rightarrow>
               Inr \<lparr>shape = s,
                    data = map2 f (expand s (pad_shape (length s) (shape a)) (data a))
                                  (expand s (pad_shape (length s) (shape b)) (data b)),
                    device = dev\<rparr>))"

definition tmul :: "tensor \<Rightarrow> tensor \<Rightarrow> error + tensor" where
  "tmul a b = binop (\<lambda>u v. u * v) a b"

definition tadd :: "tensor \<Rightarrow> tensor \<Rightarrow> error + tensor" where
  "tadd a b = binop (\<lambda>u v. u + v) a b"

text \<open>\<^verbatim>\<open>c - t\<close> for a Python number \<open>c\<close>.\<close>

definition rsub :: "real \<Rightarrow> tensor \<Rightarrow> tensor" where
  "rsub c t = t\<lparr>data := map (\<lambda>v. c - v) (data t)\<rparr>"

text \<open>
  \<^verbatim>\<open>t.split(1, dim=0)\<close>: one chunk of leading size 1 per index of dimension 0, and the
  tensor itself as the only chunk when that dimension is empty; a zero-dimensional
  tensor has no dimension 0.
\<close>

definition split1 :: "tensor \<Rightarrow> error + tensor list" where
  "split1 t =
     (case shape t of
        [] \<Rightarrow> Inl RuntimeError
      | n # rest \<Rightarrow>
          Inr (if n = 0 then [t]
               else map (\<lambda>i. \<lparr>shape = 1 # rest,
                               data = take (prod_list rest) (drop (i * prod_list rest) (data t)),
                               device = device t\<rparr>) [0..<n]))"

definition view :: "tensor \<Rightarrow> nat list \<Rightarrow> error + tensor" where
  "view t s = (if prod_list s = numel t then Inr (t\<lparr>shape := s\<rparr>) else Inl RuntimeError)"

definition stack :: "tensor list \<Rightarrow> error + tensor" where
  "stack ts =
     (case ts of
        [] \<Rightarrow> Inl RuntimeError
      | t # rest \<Rightarrow>
          if list_all (\<lambda>u. shape u = shape t \<and> device u = device t) rest
          then Inr \<lparr>shape = length ts # shape t, data = concat (map data ts), device = device t\<rparr>
          else Inl RuntimeError)"

subsection \<open>CPUForgetMult.forward\<close>

text \<open>
  \<^verbatim>\<open>
  def forward(self, f, x, hidden_init=None):
      result = []
      forgets = f.split(1, dim=0)
      prev_h = hidden_init
      for i, h in enumerate((f * x).split(1, dim=0)):
          if prev_h is not None: h = h + (1 - forgets[i]) * prev_h
          h = h.view(h.size()[1:])
          result.append(h)
          prev_h = h
      return torch.stack(result)
  \<close>
  The loop is a recursion over the chunks of \<^verbatim>\<open>f * x\<close>, with the index \<open>i\<close> of
  \<^verbatim>\<open>enumerate\<close>, the previous state and the list of results as arguments.
  \<^verbatim>\<open>forgets[i]\<close> raises \<^verbatim>\<open>IndexError\<close> past the end of the tuple.
\<close>

fun forward_loop ::
  "tensor list \<Rightarrow> nat \<Rightarrow> tensor list \<Rightarrow> tensor option \<Rightarrow> tensor list \<Rightarrow> error + tensor list" where
  "forward_loop forgets i [] prev_h result = Inr result"
| "forward_loop forgets i (h # hs) prev_h result =
     (case (case prev_h of
              None \<Rightarrow> Inr h
            | Some p \<Rightarrow>
                if i < length forgets
                then (case tmul (rsub 1 (forgets ! i)) p of
                        Inl e \<Rightarrow> Inl e
                      | Inr m \<Rightarrow> tadd h m)
                else Inl IndexError) of
        Inl e \<Rightarrow> Inl e
      | Inr h1 \<Rightarrow>
          (case view h1 (tl (shape h1)) of
             Inl e \<Rightarrow> Inl e
           | Inr h2 \<Rightarrow> forward_loop forgets (i + 1) hs (Some h2) (result @ [h2])))"

definition CPUForgetMult_forward :: "tensor \<Rightarrow> tensor \<Rightarrow> tensor option \<Rightarrow> error + tensor" where
  "CPUForgetMult_forward f x hidden_init =
     (case split1 f of
        Inl e \<Rightarrow> Inl e
      | Inr forgets \<Rightarrow>
          (case tmul f x of
             Inl e \<Rightarrow> Inl e
           | Inr fx \<Rightarrow>
               (case split1 fx of
                  Inl e \<Rightarrow> Inl e
                | Inr chunks \<Rightarrow>
                    (case forward_loop forgets 0 chunks hidden_init [] of
                       Inl e \<Rightarrow> Inl e
                     | Inr result \<Rightarrow> stack result))))"

subsection \<open>ForgetMult.forward, the backend selector\<close>

text \<open>
  The names bound at module level by the source file: its five imports, the string
  \<^verbatim>\<open>kernel\<close> and the two classes. A global name that is not bound there (and is no
  builtin) raises \<^verbatim>\<open>NameError\<close> when it is evaluated.
\<close>

datatype py_object = Imported | KernelSource | CPUForgetMult_class | ForgetMult_class

definition module_globals :: "(string \<times> py_object) list" where
  "module_globals =
     [(''math'', Imported), (''torch'', Imported), (''Variable'', Imported),
      (''Program'', Imported), (''namedtuple'', Imported), (''kernel'', KernelSource),
      (''CPUForgetMult'', CPUForgetMult_class), (''ForgetMult'', ForgetMult_class)]"

definition lookup_global :: "string \<Rightarrow> error + py_object" where
  "lookup_global name =
     (case map_of module_globals name of None \<Rightarrow> Inl (NameError name) | Some obj \<Rightarrow> Inr obj)"

text \<open>
  \<^verbatim>\<open>C()(f, x, hidden_init)\<close> for the object \<open>C\<close> a name evaluates to. Of the objects of
  the module only \<^verbatim>\<open>CPUForgetMult\<close> is ever the callee in the source; no other object
  is reached by \<open>ForgetMult_forward\<close>.
\<close>

definition construct_and_call ::
  "py_object \<Rightarrow> tensor \<Rightarrow> tensor \<Rightarrow> tensor option \<Rightarrow> error + tensor" where
  "construct_and_call obj f x hidden_init =
     (case obj of
        CPUForgetMult_class \<Rightarrow> CPUForgetMult_forward f x hidden_init
      | _ \<Rightarrow> Inl TypeError)"

definition call_global :: "string \<Rightarrow> tensor \<Rightarrow> tensor \<Rightarrow> tensor option \<Rightarrow> error + tensor" where
  "call_global name f x hidden_init =
     (case lookup_global name of
        Inl e \<Rightarrow> Inl e
      | Inr obj \<Rightarrow> construct_and_call obj f x hidden_init)"

text \<open>
  \<^verbatim>\<open>
  def forward(self, f, x, hidden_init=None, use_cuda=True):
      use_cuda = use_cuda and torch.cuda.is_available()
      if use_cuda: assert f.is_cuda and x.is_cuda, 'GPU ForgetMult ...'
      if hidden_init is None:
          return GPUForgetMult()(f, x) if use_cuda else CPUForgetMult()(f, x)
      return GPUForgetMult()(f, x, hidden_init) if use_cuda else CPUForgetMult()(f, x, hidden_init)
  \<close>
  \<open>cuda_is_available\<close> is the answer of \<^verbatim>\<open>torch.cuda.is_available()\<close>.
\<close>

definition assert_message :: string where
  "assert_message =
     ''GPU ForgetMult with fast element-wise CUDA kernel requested but tensors not on GPU''"

definition ForgetMult_forward ::
  "bool \<Rightarrow> tensor \<Rightarrow> tensor \<Rightarrow> tensor option \<Rightarrow> bool \<Rightarrow> error + tensor" where
  "ForgetMult_forward cuda_is_available f x hidden_init use_cuda0 =
     (let use_cuda = (use_cuda0 \<and> cuda_is_available)
      in if use_cuda \<and> \<not> (is_cuda f \<and> is_cuda x) then Inl (AssertionError assert_message)
         else (case hidden_init of
                 None \<Rightarrow>
                   if use_cuda then call_global ''GPUForgetMult'' f x None
                   else call_global ''CPUForgetMult'' f x None
               | Some h0 \<Rightarrow>
                   if use_cuda then call_global ''GPUForgetMult'' f x (Some h0)
                   else call_global ''CPUForgetMult'' f x (Some h0)))"

subsection \<open>The CUDA kernels\<close>

text \<open>
  One thread of \<^verbatim>\<open>recurrent_forget_mult\<close>. The thread's coordinates
  \<^verbatim>\<open>hid = blockIdx.x * blockDim.x + threadIdx.x\<close> and
  \<^verbatim>\<open>bid = blockIdx.y * blockDim.y + threadIdx.y\<close> are its argument \<open>(hid, bid)\<close>.
  \<^verbatim>\<open>
  if(hid >= HIDDEN || bid >= BATCH) return;
  for (int ts = 0 + 1; ts < SEQ + 1; ts++) {
     int i           = (ts - 1) * HIDDEN * BATCH + bid * HIDDEN + hid;
     int dst_i       = (ts - 0) * HIDDEN * BATCH + bid * HIDDEN + hid;
     int dst_iminus1 = (ts - 1) * HIDDEN * BATCH + bid * HIDDEN + hid;
     dst[dst_i]      = f[i] * x[i];
     dst[dst_i]      += (1 - f[i]) * dst[dst_iminus1];
  }
  \<close>
  In the loop \<open>ts\<close> is at least 1, so \<open>ts - 1\<close> on natural numbers is the C value.

  The parameters \<open>SEQ\<close>, \<open>BATCH\<close>, \<open>HIDDEN\<close>, the loop counter and the three indices
  are C \<^verbatim>\<open>int\<close>s, and the unsigned thread coordinates are converted to \<^verbatim>\<open>int\<close>.
  All of them are non-negative and none exceeds \<open>max (SEQ + 1) ((SEQ + 1) * HIDDEN * BATCH)\<close>
  or a thread coordinate, so in the range \<open>kernel_ints\<close> no \<^verbatim>\<open>int\<close> expression of a
  kernel overflows, the conversion of the coordinates keeps their value, and the
  natural-number arithmetic of the definitions below is the arithmetic of the C code. A
  coordinate of \<open>2^31\<close> or more would become a negative \<^verbatim>\<open>int\<close> and pass the guard; an
  index of \<open>2^31\<close> or more would overflow: both are excluded by \<open>kernel_ints\<close>.
\<close>

definition kernel_ints :: "nat \<Rightarrow> nat \<Rightarrow> nat \<Rightarrow> (nat \<times> nat) list \<Rightarrow> bool" where
  "kernel_ints SEQ BATCH HIDDEN threads =
     (SEQ < 2 ^ 31 \<and> BATCH < 2 ^ 31 \<and> HIDDEN < 2 ^ 31
      \<and> (SEQ + 1) * (HIDDEN * BATCH) < 2 ^ 31
      \<and> list_all (\<lambda>(hid, bid). hid < 2 ^ 31 \<and> bid < 2 ^ 31) threads)"

definition recurrent_forget_mult_body ::
  "real list \<Rightarrow> real list \<Rightarrow> nat \<Rightarrow> nat \<Rightarrow> nat \<Rightarrow> nat \<Rightarrow> nat \<Rightarrow> real list \<Rightarrow> real list option" where
  "recurrent_forget_mult_body f x BATCH HIDDEN bid hid ts dst =
     (let i = (ts - 1) * HIDDEN * BATCH + bid * HIDDEN + hid;
          dst_i = (ts - 0) * HIDDEN * BATCH + bid * HIDDEN + hid;
          dst_iminus1 = (ts - 1) * HIDDEN * BATCH + bid * HIDDEN + hid
      in if i < length f \<and> i < length x \<and> dst_i < length dst \<and> dst_iminus1 < length dst
         then (let dst1 = dst[dst_i := f ! i * x ! i]
               in Some (dst1[dst_i := dst1 ! dst_i + (1 - f ! i) * dst1 ! dst_iminus1]))
         else None)"

function recurrent_forget_mult_loop ::
  "real list \<Rightarrow> real list \<Rightarrow> nat \<Rightarrow> nat \<Rightarrow> nat \<Rightarrow> nat \<Rightarrow> nat \<Rightarrow> nat \<Rightarrow> real list \<Rightarrow> real list option" where
  "recurrent_forget_mult_loop f x SEQ BATCH HIDDEN bid hid ts dst =
     (if ts < SEQ + 1
      then (case recurrent_forget_mult_body f x BATCH HIDDEN bid hid ts dst of
              None \<Rightarrow> None
            | Some dst' \<Rightarrow> recurrent_forget_mult_loop f x SEQ BATCH HIDDEN bid hid (ts + 1) dst')
      else Some dst)"
  by pat_completeness auto
termination
  by (relation "measure (\<lambda>(f, x, SEQ, BATCH, HIDDEN, bid, hid, ts, dst). SEQ + 1 - ts)") auto

definition recurrent_forget_mult ::
  "real list \<Rightarrow> real list \<Rightarrow> nat \<Rightarrow> nat \<Rightarrow> nat \<Rightarrow> nat \<times> nat \<Rightarrow> real list \<Rightarrow> real list option" where
  "recurrent_forget_mult f x SEQ BATCH HIDDEN tid dst =
     (case tid of (hid, bid) \<Rightarrow>
        if hid \<ge> HIDDEN \<or> bid \<ge> BATCH then Some dst
        else recurrent_forget_mult_loop f x SEQ BATCH HIDDEN bid hid (0 + 1) dst)"

text \<open>
  A kernel launch runs one thread per coordinate pair of the grid. Every thread of the
  two kernels reads and writes only the cells of its own lane \<open>bid * HIDDEN + hid\<close>
  (lemmas \<open>fwd_thread\<close> and \<open>bwd_thread\<close> below), so the threads do
  not interfere and the launch is modelled by running them one after the other, in the
  order of the list given; the results below hold for every such list.
\<close>

fun launch :: "('t \<Rightarrow> 's \<Rightarrow> 's option) \<Rightarrow> 't list \<Rightarrow> 's \<Rightarrow> 's option" where
  "launch k [] s = Some s"
| "launch k (t # ts) s = (case k t s of None \<Rightarrow> None | Some s' \<Rightarrow> launch k ts s')"

text \<open>
  One thread of \<^verbatim>\<open>bwd_recurrent_forget_mult\<close>; \<open>gf\<close>, \<open>gx\<close> and \<open>ghinit\<close> are the
  output buffers, \<open>running_f\<close> is local to the thread.
  \<^verbatim>\<open>
  double running_f = 0;
  for (int ts = SEQ - 1 + 1; ts >= 0 + 1; ts--) {
     int i           = (ts - 1) * HIDDEN * BATCH + bid * HIDDEN + hid;
     int dst_i       = (ts - 0) * HIDDEN * BATCH + bid * HIDDEN + hid;
     int dst_iminus1 = (ts - 1) * HIDDEN * BATCH + bid * HIDDEN + hid;
     running_f       += gh[dst_iminus1];
     gx[i]           = f[i] * running_f;
     gf[i]           = (x[i] - h[dst_iminus1]) * running_f;
     // The line below is likely more numerically stable than (1 - f[i]) * running_f;
     running_f       = running_f - f[i] * running_f;
  }
  ghinit[bid * HIDDEN + hid] = running_f;
  \<close>
\<close>

record grads =
  gf :: "real list"
  gx :: "real list"
  ghinit :: "real list"

text \<open>The last statement of the loop body, \<^verbatim>\<open>running_f = running_f - f[i] * running_f\<close>.\<close>

definition attenuate :: "real \<Rightarrow> real \<Rightarrow> real" where
  "attenuate f_i running_f = running_f - f_i * running_f"

definition bwd_recurrent_forget_mult_body ::
  "real list \<Rightarrow> real list \<Rightarrow> real list \<Rightarrow> real list \<Rightarrow> nat \<Rightarrow> nat \<Rightarrow> nat \<Rightarrow> nat \<Rightarrow> nat
     \<Rightarrow> real \<times> grads \<Rightarrow> (real \<times> grads) option" where
  "bwd_recurrent_forget_mult_body h f x gh BATCH HIDDEN bid hid ts st =
     (case st of (running_f, g) \<Rightarrow>
      let i = (ts - 1) * HIDDEN * BATCH + bid * HIDDEN + hid;
          dst_i = (ts - 0) * HIDDEN * BATCH + bid * HIDDEN + hid;
          dst_iminus1 = (ts - 1) * HIDDEN * BATCH + bid * HIDDEN + hid
      in if dst_iminus1 < length gh \<and> i < length (gx g) \<and> i < length f \<and> i < length (gf g)
            \<and> i < length x \<and> dst_iminus1 < length h
         then (let running_f1 = running_f + gh ! dst_iminus1;
                   g1 = g\<lparr>gx := (gx g)[i := f ! i * running_f1]\<rparr>;
                   g2 = g1\<lparr>gf := (gf g1)[i := (x ! i - h ! dst_iminus1) * running_f1]\<rparr>
               in Some (attenuate (f ! i) running_f1, g2))
         else None)"

text \<open>The loop counts \<open>ts\<close> down from \<open>SEQ\<close> to 1: structural recursion on \<open>ts\<close>.\<close>

fun bwd_recurrent_forget_mult_loop ::
  "real list \<Rightarrow> real list \<Rightarrow> real list \<Rightarrow> real list \<Rightarrow> nat \<Rightarrow> nat \<Rightarrow> nat \<Rightarrow> nat \<Rightarrow> nat
     \<Rightarrow> real \<times> grads \<Rightarrow> (real \<times> grads) option" where
  "bwd_recurrent_forget_mult_loop h f x gh BATCH HIDDEN bid hid 0 st = Some st"
| "bwd_recurrent_forget_mult_loop h f x gh BATCH HIDDEN bid hid (Suc n) st =
     (case bwd_recurrent_forget_mult_body h f x gh BATCH HIDDEN bid hid (Suc n) st of
        None \<Rightarrow> None
      | Some st' \<Rightarrow> bwd_recurrent_forget_mult_loop h f x gh BATCH HIDDEN bid hid n st')"

text \<open>The initial value \<^verbatim>\<open>SEQ - 1 + 1\<close> of \<open>ts\<close> is computed on integers, as in C.\<close>

definition bwd_recurrent_forget_mult ::
  "real list \<Rightarrow> real list \<Rightarrow> real list \<Rightarrow> real list \<Rightarrow> nat \<Rightarrow> nat \<Rightarrow> nat \<Rightarrow> nat \<times> nat
     \<Rightarrow> grads \<Rightarrow> grads option" where
  "bwd_recurrent_forget_mult h f x gh SEQ BATCH HIDDEN tid g =
     (case tid of (hid, bid) \<Rightarrow>
        if hid \<ge> HIDDEN \<or> bid \<ge> BATCH then Some g
        else (case bwd_recurrent_forget_mult_loop h f x gh BATCH HIDDEN bid hid
                     (nat (int SEQ - 1 + 1)) (0, g) of
                None \<Rightarrow> None
              | Some (running_f, g') \<Rightarrow>
                  if bid * HIDDEN + hid < length (ghinit g')
                  then Some (g'\<lparr>ghinit := (ghinit g')[bid * HIDDEN + hid := running_f]\<rparr>)
                  else None))"

section \<open>Specification-level notions\<close>

subsection \<open>The hidden sequence of the recurrence\<close>

text \<open>
  A buffer \<open>Hs\<close> of \<open>T + 1\<close> rows of \<open>n\<close> lanes holds the hidden states \<open>H[0..T]\<close>, row
  \<open>t\<close> at the indices \<open>t * n + l\<close>. \<open>F\<close> and \<open>X\<close> have \<open>T\<close> rows: the gate and the feature
  of step \<open>t\<close> (counted from 1, as the specification does) are in row \<open>t - 1\<close>. The
  recurrence \<open>H[t] = F[t] * X[t] + (1 - F[t]) * H[t-1]\<close> for one lane, and for all of
  them:
\<close>

definition lane_recurrence :: "nat \<Rightarrow> nat \<Rightarrow> real list \<Rightarrow> real list \<Rightarrow> real list \<Rightarrow> nat \<Rightarrow> bool" where
  "lane_recurrence n T F X Hs l =
     (\<forall>t \<in> {1..T}. Hs ! (t * n + l) =
        F ! ((t - 1) * n + l) * X ! ((t - 1) * n + l) + (1 - F ! ((t - 1) * n + l)) * Hs ! ((t - 1) * n + l))"

definition hidden_sequence :: "nat \<Rightarrow> nat \<Rightarrow> real list \<Rightarrow> real list \<Rightarrow> real list \<Rightarrow> bool" where
  "hidden_sequence n T F X Hs =
     (length Hs = (T + 1) * n \<and> (\<forall>l \<in> {0..<n}. lane_recurrence n T F X Hs l))"

text \<open>The initial row \<open>H[0]\<close>: the elements of \<open>hidden_init\<close>, zeros when it is absent.\<close>

definition h0_data :: "nat \<Rightarrow> tensor option \<Rightarrow> real list" where
  "h0_data n hidden_init = (case hidden_init of None \<Rightarrow> replicate n 0 | Some h \<Rightarrow> data h)"

text \<open>
  The inputs the specification speaks of: \<open>F\<close> and \<open>X\<close> of shape \<open>(T, batch, hidden)\<close>, an
  initial state of shape \<open>(batch, hidden)\<close> when there is one, all on one device.
\<close>

definition forward_inputs :: "nat \<Rightarrow> nat \<Rightarrow> nat \<Rightarrow> tensor \<Rightarrow> tensor \<Rightarrow> tensor option \<Rightarrow> bool" where
  "forward_inputs T BATCH HIDDEN f x hidden_init =
     (shape f = [T, BATCH, HIDDEN] \<and> shape x = [T, BATCH, HIDDEN] \<and> wf_tensor f \<and> wf_tensor x
      \<and> device x = device f
      \<and> (case hidden_init of
            None \<Rightarrow> True
          | Some h \<Rightarrow> shape h = [BATCH, HIDDEN] \<and> wf_tensor h \<and> device h = device f))"

text \<open>\<^verbatim>\<open>torch.zeros\<close>: the all-zero tensor of a shape.\<close>

definition zeros :: "nat list \<Rightarrow> device \<Rightarrow> tensor" where
  "zeros s dev = \<lparr>shape = s, data = replicate (prod_list s) 0, device = dev\<rparr>"

subsection \<open>Grids\<close>

text \<open>
  A launch covers the lanes when it has a thread for every pair \<open>(hid, bid)\<close> below
  \<open>(HIDDEN, BATCH)\<close>; a thread runs the lane \<open>bid * HIDDEN + hid\<close> when it passes the
  guard of the kernels.
\<close>

definition grid_covers :: "nat \<Rightarrow> nat \<Rightarrow> (nat \<times> nat) list \<Rightarrow> bool" where
  "grid_covers BATCH HIDDEN threads =
     (\<forall>bid \<in> {0..<BATCH}. \<forall>hid \<in> {0..<HIDDEN}. (hid, bid) \<in> set threads)"

definition runs_lane :: "nat \<Rightarrow> nat \<Rightarrow> nat \<times> nat \<Rightarrow> nat \<Rightarrow> bool" where
  "runs_lane BATCH HIDDEN tid l =
     (case tid of (hid, bid) \<Rightarrow> hid < HIDDEN \<and> bid < BATCH \<and> l = bid * HIDDEN + hid)"

subsection \<open>The backward scan, as the specification words it\<close>

text \<open>
  The accumulator of one lane after \<open>k\<close> iterations of the scan \<open>t = T, T - 1, \<dots>\<close>: it
  starts at 0, and the iteration for step \<open>t = T - k\<close> (row \<open>T - k - 1\<close> of the buffers)
  performs \<open>acc = acc + gH[t]\<close> and then \<open>acc = acc - F[t] * acc\<close>.
\<close>

primrec spec_acc :: "nat \<Rightarrow> real list \<Rightarrow> real list \<Rightarrow> nat \<Rightarrow> nat \<Rightarrow> nat \<Rightarrow> real" where
  "spec_acc n F gH T l 0 = 0"
| "spec_acc n F gH T l (Suc k) =
     (let acc = spec_acc n F gH T l k + gH ! ((T - k - 1) * n + l)
      in acc - F ! ((T - k - 1) * n + l) * acc)"

text \<open>
  The gradients of one lane: \<open>dH0\<close> is the accumulator after all \<open>T\<close> iterations; at step
  \<open>t\<close> the accumulator, after \<open>gH[t]\<close> has been added to its value from the \<open>T - t\<close>
  earlier iterations, gives \<open>dX[t] = F[t] * acc\<close> and \<open>dF[t] = (X[t] - H[t-1]) * acc\<close>.
\<close>

definition bwd_lane_ok ::
  "nat \<Rightarrow> nat \<Rightarrow> real list \<Rightarrow> real list \<Rightarrow> real list \<Rightarrow> real list \<Rightarrow> grads \<Rightarrow> nat \<Rightarrow> bool" where
  "bwd_lane_ok n T h f x gh g l =
     (ghinit g ! l = spec_acc n f gh T l T
      \<and> (\<forall>t \<in> {1..T}.
            gx g ! ((t - 1) * n + l)
              = f ! ((t - 1) * n + l) * (spec_acc n f gh T l (T - t) + gh ! ((t - 1) * n + l))
          \<and> gf g ! ((t - 1) * n + l)
              = (x ! ((t - 1) * n + l) - h ! ((t - 1) * n + l))
                  * (spec_acc n f gh T l (T - t) + gh ! ((t - 1) * n + l))))"

definition backward_result ::
  "nat \<Rightarrow> nat \<Rightarrow> real list \<Rightarrow> real list \<Rightarrow> real list \<Rightarrow> real list \<Rightarrow> grads \<Rightarrow> bool" where
  "backward_result n T h f x gh g =
     (length (gf g) = T * n \<and> length (gx g) = T * n \<and> length (ghinit g) = n
      \<and> (\<forall>l \<in> {0..<n}. bwd_lane_ok n T h f x gh g l))"

subsection \<open>Rows of a tensor\<close>

text \<open>
  Auxiliary notions of the proofs about \<open>CPUForgetMult_forward\<close>: row \<open>i\<close> of a buffer of
  rows of length \<open>n\<close>, a tensor from its three fields, and the rows the loop appends to
  \<open>result\<close>, computed on plain lists.
\<close>

definition row :: "nat \<Rightarrow> 'a list \<Rightarrow> nat \<Rightarrow> 'a list" where
  "row n d i = take n (drop (i * n) d)"

definition mk_tensor :: "nat list \<Rightarrow> device \<Rightarrow> real list \<Rightarrow> tensor" where
  "mk_tensor s dev d = \<lparr>shape = s, data = d, device = dev\<rparr>"

fun cpu_rows :: "real list list \<Rightarrow> real list list \<Rightarrow> real list \<Rightarrow> real list list" where
  "cpu_rows (fr # frs) (hr # hrs) p =
     (let h = map2 (\<lambda>u v. u + v) hr (map2 (\<lambda>u v. u * v) (map (\<lambda>v. 1 - v) fr) p)
      in h # cpu_rows frs hrs h)"
| "cpu_rows frs hrs p = []"

definition cpu_result :: "real list list \<Rightarrow> real list list \<Rightarrow> real list option \<Rightarrow> real list list" where
  "cpu_result frows hrs h0 =
     (case h0 of
        None \<Rightarrow> (case hrs of [] \<Rightarrow> [] | hr # hrs' \<Rightarrow> hr # cpu_rows (tl frows) hrs' hr)
      | Some p \<Rightarrow> cpu_rows frows hrs p)"

definition f_rows :: "nat \<Rightarrow> nat \<Rightarrow> tensor \<Rightarrow> real list list" where
  "f_rows T n f = map (row n (data f)) [0..<T]"

definition fx_rows :: "nat \<Rightarrow> nat \<Rightarrow> tensor \<Rightarrow> tensor \<Rightarrow> real list list" where
  "fx_rows T n f x = map (row n (map2 (\<lambda>u v. u * v) (data f) (data x))) [0..<T]"

definition h0_ok :: "nat list \<Rightarrow> device \<Rightarrow> tensor option \<Rightarrow> bool" where
  "h0_ok s dev hidden_init =
     (case hidden_init of None \<Rightarrow> True | Some h \<Rightarrow> shape h = s \<and> wf_tensor h \<and> device h = dev)"

section \<open>Lemmas\<close>

subsection \<open>Rows and broadcasting\<close>

lemma length_row: "(i + 1) * n \<le> length d \<Longrightarrow> length (row n d i) = n"
  by (simp add: row_def)

lemma nth_row: "l < n \<Longrightarrow> (i + 1) * n \<le> length d \<Longrightarrow> row n d i ! l = d ! (i * n + l)"
  by (simp add: row_def)

lemma row_Suc_drop: "row n (drop n d) i = row n d (Suc i)"
  by (simp add: row_def add.commute)

lemma concat_rows: "length d = k * n \<Longrightarrow> concat (map (row n d) [0..<k]) = d"
proof (induction k arbitrary: d)
  case 0
  then show ?case by simp
next
  case (Suc k)
  have "[0..<Suc k] = 0 # map Suc [0..<k]"
    by (simp add: upt_conv_Cons map_Suc_upt del: upt_Suc)
  then have "concat (map (row n d) [0..<Suc k]) = row n d 0 @ concat (map (\<lambda>i. row n d (Suc i)) [0..<k])"
    by (simp add: comp_def del: upt_Suc)
  also have "(\<lambda>i. row n d (Suc i)) = row n (drop n d)"
    by (rule ext) (simp add: row_Suc_drop)
  also have "concat (map (row n (drop n d)) [0..<k]) = drop n d"
    using Suc.prems by (intro Suc.IH) simp
  finally show ?case by (simp add: row_def)
qed

lemma expand_same: "length d = prod_list s \<Longrightarrow> expand s s d = d"
proof (induction s arbitrary: d)
  case Nil
  then show ?case by simp
next
  case (Cons k s)
  have "map (\<lambda>i. expand s s (take (prod_list s) (drop (i * prod_list s) d))) [0..<k]
        = map (row (prod_list s) d) [0..<k]"
  proof (rule map_cong[OF refl])
    fix i assume "i \<in> set [0..<k]"
    then have "(i + 1) * prod_list s \<le> k * prod_list s" by (simp del: mult_Suc)
    then have "length (row (prod_list s) d i) = prod_list s"
      using Cons.prems by (intro length_row) simp
    then show "expand s s (take (prod_list s) (drop (i * prod_list s) d)) = row (prod_list s) d i"
      using Cons.IH[of "row (prod_list s) d i"] by (simp add: row_def)
  qed
  then have "expand (k # s) (k # s) d = concat (map (row (prod_list s) d) [0..<k])"
    by (simp only: expand.simps refl if_True)
  also have "\<dots> = d"
    using Cons.prems by (intro concat_rows) simp
  finally show ?case .
qed

lemma expand_lead: "length d = prod_list s \<Longrightarrow> expand (k # s) (1 # s) d = concat (replicate k d)"
  by (cases "k = 1") (simp_all add: expand_same)

lemma map2_broadcast_dim_same: "map2 broadcast_dim s s = s"
  by (induction s) (simp_all add: broadcast_dim_def)

lemma list_all2_broadcastable_same: "list_all2 broadcastable s s"
  by (simp add: list_all2_same broadcastable_def)

lemma broadcast_shapes_same: "broadcast_shapes s s = Some s"
  by (simp add: broadcast_shapes_def pad_shape_def Let_def map2_broadcast_dim_same
      list_all2_broadcastable_same)

lemma broadcast_shapes_lead: "broadcast_shapes (k # s) s = Some (k # s)"
proof -
  have "broadcastable k 1" "broadcast_dim k 1 = k"
    by (simp_all add: broadcastable_def broadcast_dim_def)
  then show ?thesis
    by (simp add: broadcast_shapes_def pad_shape_def Let_def map2_broadcast_dim_same
        list_all2_broadcastable_same)
qed

lemma binop_same:
  assumes "wf_tensor a" "wf_tensor b" "shape b = shape a" "device b = device a"
  shows "binop g a b = Inr \<lparr>shape = shape a, data = map2 g (data a) (data b), device = device a\<rparr>"
  using assms
  by (simp add: binop_def common_device_def broadcast_shapes_same pad_shape_def expand_same wf_tensor_def)

lemma binop_lead:
  assumes "wf_tensor a" "wf_tensor b" "shape a = k # shape b" "device b = device a"
  shows "binop g a b = Inr \<lparr>shape = shape a, data = map2 g (data a) (concat (replicate k (data b))), device = device a\<rparr>"
proof -
  have 1: "expand (k # shape b) (k # shape b) (data a) = data a"
    using assms by (intro expand_same) (simp add: wf_tensor_def)
  have 2: "expand (k # shape b) (1 # shape b) (data b) = concat (replicate k (data b))"
    using assms by (intro expand_lead) (simp add: wf_tensor_def)
  have 3: "pad_shape (Suc (length (shape b))) (shape b) = 1 # shape b"
    by (simp add: pad_shape_def)
  show ?thesis
    using assms 1 2 3
    by (simp add: binop_def common_device_def broadcast_shapes_lead pad_shape_def del: expand.simps)
qed

subsection \<open>The loop of the sequential module on rows\<close>

lemma mk_tensor_sel [simp]:
  "shape (mk_tensor s dev d) = s" "data (mk_tensor s dev d) = d" "device (mk_tensor s dev d) = dev"
  by (simp_all add: mk_tensor_def)

lemma wf_mk_tensor [simp]: "wf_tensor (mk_tensor s dev d) = (length d = prod_list s)"
  by (simp add: wf_tensor_def)

lemma split1_rows:
  assumes "shape t = k # s" "0 < k"
  shows "split1 t = Inr (map (\<lambda>i. mk_tensor (Suc 0 # s) (device t) (row (prod_list s) (data t) i)) [0..<k])"
  using assms by (simp add: split1_def mk_tensor_def row_def)

lemma rsub_mk: "rsub c (mk_tensor s dev d) = mk_tensor s dev (map (\<lambda>v. c - v) d)"
  by (simp add: rsub_def mk_tensor_def)

lemma tmul_lead1:
  assumes "length a = prod_list s" "length b = prod_list s"
  shows "tmul (mk_tensor (Suc 0 # s) dev a) (mk_tensor s dev b) = Inr (mk_tensor (Suc 0 # s) dev (map2 (\<lambda>u v. u * v) a b))"
  unfolding tmul_def
  by (subst binop_lead[where k = "Suc 0"]) (use assms in \<open>simp_all add: mk_tensor_def wf_tensor_def\<close>)

lemma tadd_same:
  assumes "length a = prod_list s" "length b = prod_list s"
  shows "tadd (mk_tensor s dev a) (mk_tensor s dev b) = Inr (mk_tensor s dev (map2 (\<lambda>u v. u + v) a b))"
  unfolding tadd_def
  by (subst binop_same) (use assms in \<open>simp_all add: mk_tensor_def wf_tensor_def\<close>)

lemma tmul_same:
  assumes "length a = prod_list s" "length b = prod_list s"
  shows "tmul (mk_tensor s dev a) (mk_tensor s dev b) = Inr (mk_tensor s dev (map2 (\<lambda>u v. u * v) a b))"
  unfolding tmul_def
  by (subst binop_same) (use assms in \<open>simp_all add: mk_tensor_def wf_tensor_def\<close>)

lemma view_tl: "view (mk_tensor (Suc 0 # s) dev d) (tl (shape (mk_tensor (Suc 0 # s) dev d))) = Inr (mk_tensor s dev d)"
  by (simp add: view_def numel_def mk_tensor_def)

lemma forward_loop_rows:
  assumes "\<forall>r \<in> set frows. length r = prod_list s" "\<forall>r \<in> set hrs. length r = prod_list s"
    "length p = prod_list s" "i + length hrs \<le> length frows"
  shows "forward_loop (map (mk_tensor (Suc 0 # s) dev) frows) i (map (mk_tensor (Suc 0 # s) dev) hrs)
           (Some (mk_tensor s dev p)) result
         = Inr (result @ map (mk_tensor s dev) (cpu_rows (drop i frows) hrs p))"
  using assms
proof (induction hrs arbitrary: i p result)
  case Nil
  then show ?case by simp
next
  case (Cons hr hrs)
  let ?fr = "frows ! i"
  let ?h = "map2 (\<lambda>u v. u + v) hr (map2 (\<lambda>u v. u * v) (map (\<lambda>v. 1 - v) ?fr) p)"
  have i: "i < length frows" using Cons.prems by simp
  then have lfr: "length ?fr = prod_list s" using Cons.prems(1) by simp
  have lhr: "length hr = prod_list s" using Cons.prems(2) by simp
  have lp: "length p = prod_list s" by fact
  have dr: "drop i frows = ?fr # drop (Suc i) frows"
    using i by (simp add: Cons_nth_drop_Suc)
  have m: "tmul (rsub 1 (mk_tensor (Suc 0 # s) dev ?fr)) (mk_tensor s dev p)
        = Inr (mk_tensor (Suc 0 # s) dev (map2 (\<lambda>u v. u * v) (map (\<lambda>v. 1 - v) ?fr) p))"
    using i lfr lp by (simp add: rsub_mk tmul_lead1)
  have a: "tadd (mk_tensor (Suc 0 # s) dev hr) (mk_tensor (Suc 0 # s) dev (map2 (\<lambda>u v. u * v) (map (\<lambda>v. 1 - v) ?fr) p))
        = Inr (mk_tensor (Suc 0 # s) dev ?h)"
    using lfr lp lhr by (simp add: tadd_same)
  have ih: "forward_loop (map (mk_tensor (Suc 0 # s) dev) frows) (Suc i) (map (mk_tensor (Suc 0 # s) dev) hrs)
           (Some (mk_tensor s dev ?h)) (result @ [mk_tensor s dev ?h])
         = Inr ((result @ [mk_tensor s dev ?h]) @ map (mk_tensor s dev) (cpu_rows (drop (Suc i) frows) hrs ?h))"
    using Cons.prems lfr lhr lp by (intro Cons.IH) simp_all
  show ?case
    using i by (simp add: m a view_tl ih dr Let_def del: mk_tensor_sel)
qed

lemma length_cpu_rows: "length (cpu_rows frs hrs p) = min (length frs) (length hrs)"
  by (induction frs hrs p rule: cpu_rows.induct) (simp_all add: Let_def)

lemma length_cpu_result:
  "length frows = T \<Longrightarrow> length hrs = T \<Longrightarrow> length (cpu_result frows hrs h0) = T"
  by (cases h0; cases hrs) (auto simp: cpu_result_def length_cpu_rows)

lemma stack_rows:
  "rows \<noteq> [] \<Longrightarrow> stack (map (mk_tensor s dev) rows) = Inr (mk_tensor (length rows # s) dev (concat rows))"
  by (cases rows) (simp_all add: stack_def list_all_iff mk_tensor_def comp_def)

lemma forward_loop_None:
  assumes "\<forall>r \<in> set frows. length r = prod_list s" "\<forall>r \<in> set hrs. length r = prod_list s"
    "length hrs \<le> length frows"
  shows "forward_loop (map (mk_tensor (Suc 0 # s) dev) frows) 0 (map (mk_tensor (Suc 0 # s) dev) hrs) None []
         = Inr (map (mk_tensor s dev) (cpu_result frows hrs None))"
proof (cases hrs)
  case Nil
  then show ?thesis by (simp add: cpu_result_def)
next
  case (Cons hr hrs')
  have "forward_loop (map (mk_tensor (Suc 0 # s) dev) frows) (Suc 0) (map (mk_tensor (Suc 0 # s) dev) hrs')
           (Some (mk_tensor s dev hr)) [mk_tensor s dev hr]
         = Inr ([mk_tensor s dev hr] @ map (mk_tensor s dev) (cpu_rows (drop (Suc 0) frows) hrs' hr))"
    using assms Cons by (intro forward_loop_rows) simp_all
  then show ?thesis
    using Cons by (simp add: cpu_result_def view_tl drop_Suc del: mk_tensor_sel)
qed

lemma forward_loop_Some:
  assumes "\<forall>r \<in> set frows. length r = prod_list s" "\<forall>r \<in> set hrs. length r = prod_list s"
    "length hrs \<le> length frows" "length p = prod_list s"
  shows "forward_loop (map (mk_tensor (Suc 0 # s) dev) frows) 0 (map (mk_tensor (Suc 0 # s) dev) hrs)
           (Some (mk_tensor s dev p)) []
         = Inr (map (mk_tensor s dev) (cpu_result frows hrs (Some p)))"
  using forward_loop_rows[of frows s hrs p 0 dev "[]"] assms by (simp add: cpu_result_def)

lemma rows_length:
  assumes "length d = T * n" "r \<in> set (map (row n d) [0..<T])"
  shows "length r = n"
proof -
  from assms obtain i where i: "i < T" "r = row n d i" by auto
  then have "(i + 1) * n \<le> T * n" by (simp del: mult_Suc)
  with assms i show ?thesis by (simp add: length_row)
qed

lemma CPUForgetMult_forward_rows:
  assumes sf: "shape f = T # s" and sx: "shape x = T # s" and wf: "wf_tensor f" and wx: "wf_tensor x"
    and dx: "device x = device f" and T: "0 < T" and h0: "h0_ok s (device f) hidden_init"
  shows "CPUForgetMult_forward f x hidden_init
         = Inr (mk_tensor (T # s) (device f)
                 (concat (cpu_result (f_rows T (prod_list s) f) (fx_rows T (prod_list s) f x)
                    (map_option data hidden_init))))"
proof -
  let ?n = "prod_list s" and ?dev = "device f"
  let ?frows = "f_rows T ?n f" and ?hrs = "fx_rows T ?n f x"
  let ?fxd = "map2 (\<lambda>u v. u * v) (data f) (data x)"
  have lf: "length (data f) = T * ?n" and lx: "length (data x) = T * ?n"
    using sf sx wf wx by (simp_all add: wf_tensor_def)
  have 1: "split1 f = Inr (map (mk_tensor (Suc 0 # s) ?dev) ?frows)"
    using sf T by (simp add: split1_rows f_rows_def comp_def)
  have 2: "tmul f x = Inr (mk_tensor (T # s) ?dev ?fxd)"
    unfolding tmul_def using sf sx wf wx dx by (subst binop_same) (simp_all add: mk_tensor_def)
  have 3: "split1 (mk_tensor (T # s) ?dev ?fxd) = Inr (map (mk_tensor (Suc 0 # s) ?dev) ?hrs)"
    using T by (simp add: split1_rows fx_rows_def comp_def)
  have rf: "\<forall>r \<in> set ?frows. length r = ?n"
    unfolding f_rows_def using rows_length[OF lf] by blast
  have lfx: "length ?fxd = T * ?n" using lf lx by simp
  have rh: "\<forall>r \<in> set ?hrs. length r = ?n"
    unfolding fx_rows_def using rows_length[OF lfx] by blast
  have len: "length ?hrs \<le> length ?frows" by (simp add: f_rows_def fx_rows_def)
  have 4: "forward_loop (map (mk_tensor (Suc 0 # s) ?dev) ?frows) 0 (map (mk_tensor (Suc 0 # s) ?dev) ?hrs)
             hidden_init []
           = Inr (map (mk_tensor s ?dev) (cpu_result ?frows ?hrs (map_option data hidden_init)))"
  proof (cases hidden_init)
    case None
    then show ?thesis using forward_loop_None[OF rf rh len] by simp
  next
    case (Some h)
    then have h: "h = mk_tensor s ?dev (data h)" "length (data h) = ?n"
      using h0 by (simp_all add: h0_ok_def mk_tensor_def wf_tensor_def)
    show ?thesis
      using forward_loop_Some[OF rf rh len h(2), of ?dev] Some h(1) by simp
  qed
  have l: "length (cpu_result ?frows ?hrs (map_option data hidden_init)) = T"
    by (rule length_cpu_result) (simp_all add: f_rows_def fx_rows_def)
  then have ne: "cpu_result ?frows ?hrs (map_option data hidden_init) \<noteq> []"
    using T by auto
  show ?thesis
    by (simp add: CPUForgetMult_forward_def 1 2 3 4 stack_rows[OF ne] l)
qed

subsection \<open>The forward kernel\<close>

lemma lane_lt:
  fixes hid bid HIDDEN BATCH :: nat
  assumes "hid < HIDDEN" "bid < BATCH"
  shows "bid * HIDDEN + hid < HIDDEN * BATCH"
proof -
  have "bid * HIDDEN + hid < Suc bid * HIDDEN" using assms by simp
  also have "\<dots> \<le> BATCH * HIDDEN" using assms by (intro mult_le_mono1) simp
  finally show ?thesis by (simp add: mult.commute)
qed

lemma fwd_body_lane:
  assumes "hid < HIDDEN" "bid < BATCH" "1 \<le> ts"
    and n: "n = HIDDEN * BATCH" and l: "l = bid * HIDDEN + hid"
    and "length f = SEQ * n" "length x = SEQ * n" "length dst = (SEQ + 1) * n" "ts \<le> SEQ"
  shows "recurrent_forget_mult_body f x BATCH HIDDEN bid hid ts dst
         = Some (dst[ts * n + l := f ! ((ts - 1) * n + l) * x ! ((ts - 1) * n + l)
                     + (1 - f ! ((ts - 1) * n + l)) * dst ! ((ts - 1) * n + l)])"
proof -
  have ln: "l < n" using lane_lt[OF assms(1,2)] n l by simp
  have a: "(ts - 1) * HIDDEN * BATCH + bid * HIDDEN + hid = (ts - 1) * n + l"
    and b: "(ts - 0) * HIDDEN * BATCH + bid * HIDDEN + hid = ts * n + l"
    by (simp_all add: n l mult.assoc)
  have "ts * n + l < Suc SEQ * n"
  proof -
    have "ts * n + l < Suc ts * n" using ln by simp
    also have "\<dots> \<le> Suc SEQ * n" using assms(9) by (intro mult_le_mono1) simp
    finally show ?thesis .
  qed
  then have c: "ts * n + l < length dst" using assms(8) by simp
  have "(ts - 1) * n + l < ts * n"
    using ln assms(3) by (cases ts) simp_all
  moreover have "ts * n \<le> SEQ * n" using assms(9) by (intro mult_le_mono1)
  ultimately have d: "(ts - 1) * n + l < SEQ * n" by linarith
  have e: "(ts - 1) * n + l \<noteq> ts * n + l" using ln assms(3) by (cases ts) simp_all
  have f: "(ts - 1) * n + l < length dst" using d assms(8) by simp
  show ?thesis
    unfolding recurrent_forget_mult_body_def a b Let_def
    using c d e f assms(6,7) by simp
qed

declare recurrent_forget_mult_loop.simps [simp del]

lemma fwd_loop_lane:
  assumes hb: "hid < HIDDEN" "bid < BATCH"
    and n: "n = HIDDEN * BATCH" and l: "l = bid * HIDDEN + hid"
    and lf: "length f = SEQ * n" and lx: "length x = SEQ * n"
  shows "1 \<le> ts \<Longrightarrow> ts \<le> SEQ + 1 \<Longrightarrow> length dst = (SEQ + 1) * n \<Longrightarrow>
    \<exists>dst'. recurrent_forget_mult_loop f x SEQ BATCH HIDDEN bid hid ts dst = Some dst'
      \<and> length dst' = length dst
      \<and> (\<forall>k. (\<forall>t. ts \<le> t \<and> t \<le> SEQ \<longrightarrow> k \<noteq> t * n + l) \<longrightarrow> dst' ! k = dst ! k)
      \<and> (\<forall>t. ts \<le> t \<and> t \<le> SEQ \<longrightarrow>
            dst' ! (t * n + l) = f ! ((t - 1) * n + l) * x ! ((t - 1) * n + l)
              + (1 - f ! ((t - 1) * n + l)) * dst' ! ((t - 1) * n + l))"
proof (induction "SEQ + 1 - ts" arbitrary: ts dst)
  case 0
  then have "ts = SEQ + 1" by simp
  then show ?case
    by (subst recurrent_forget_mult_loop.simps) simp
next
  case (Suc m)
  then have ts: "1 \<le> ts" "ts \<le> SEQ" by simp_all
  have ln: "l < n" using lane_lt[OF hb] n l by simp
  let ?v = "f ! ((ts - 1) * n + l) * x ! ((ts - 1) * n + l)
             + (1 - f ! ((ts - 1) * n + l)) * dst ! ((ts - 1) * n + l)"
  let ?dst1 = "dst[ts * n + l := ?v]"
  have body: "recurrent_forget_mult_body f x BATCH HIDDEN bid hid ts dst = Some ?dst1"
    using fwd_body_lane[OF hb ts(1) n l lf lx Suc.prems(3) ts(2)] .
  have "m = SEQ + 1 - (ts + 1)" using Suc.hyps(2) by simp
  from Suc.hyps(1)[OF this, of ?dst1] ts Suc.prems(3)
  obtain dst' where d: "recurrent_forget_mult_loop f x SEQ BATCH HIDDEN bid hid (ts + 1) ?dst1 = Some dst'"
    "length dst' = length ?dst1"
    "\<forall>k. (\<forall>t. ts + 1 \<le> t \<and> t \<le> SEQ \<longrightarrow> k \<noteq> t * n + l) \<longrightarrow> dst' ! k = ?dst1 ! k"
    "\<forall>t. ts + 1 \<le> t \<and> t \<le> SEQ \<longrightarrow>
            dst' ! (t * n + l) = f ! ((t - 1) * n + l) * x ! ((t - 1) * n + l)
              + (1 - f ! ((t - 1) * n + l)) * dst' ! ((t - 1) * n + l)"
    by auto
  have run: "recurrent_forget_mult_loop f x SEQ BATCH HIDDEN bid hid ts dst = Some dst'"
    using ts body d(1) by (subst recurrent_forget_mult_loop.simps) simp
  have lt: "ts * n + l < length dst"
  proof -
    have "ts * n + l < Suc ts * n" using ln by simp
    also have "\<dots> \<le> Suc SEQ * n" using ts(2) by (intro mult_le_mono1) simp
    finally show ?thesis using Suc.prems(3) by simp
  qed
  have sep1: "\<forall>t. ts + 1 \<le> t \<and> t \<le> SEQ \<longrightarrow> ts * n + l \<noteq> t * n + l"
    using ln by auto
  have sep2: "\<forall>t. ts + 1 \<le> t \<and> t \<le> SEQ \<longrightarrow> (ts - 1) * n + l \<noteq> t * n + l"
    using ln by auto
  have prev_ne: "(ts - 1) * n + l \<noteq> ts * n + l" using ln ts(1) by (cases ts) simp_all
  have "dst' ! (ts * n + l) = ?dst1 ! (ts * n + l)"
    using d(3) sep1 by blast
  then have cur: "dst' ! (ts * n + l) = ?v"
    using lt by simp
  have "dst' ! ((ts - 1) * n + l) = ?dst1 ! ((ts - 1) * n + l)"
    using d(3) sep2 by blast
  then have prev: "dst' ! ((ts - 1) * n + l) = dst ! ((ts - 1) * n + l)"
    using prev_ne by simp
  have frame: "\<forall>k. (\<forall>t. ts \<le> t \<and> t \<le> SEQ \<longrightarrow> k \<noteq> t * n + l) \<longrightarrow> dst' ! k = dst ! k"
  proof (intro allI impI)
    fix k assume k: "\<forall>t. ts \<le> t \<and> t \<le> SEQ \<longrightarrow> k \<noteq> t * n + l"
    then have "k \<noteq> ts * n + l" using ts(2) by blast
    moreover have "dst' ! k = ?dst1 ! k" using d(3) k by simp
    ultimately show "dst' ! k = dst ! k" by simp
  qed
  have post: "\<forall>t. ts \<le> t \<and> t \<le> SEQ \<longrightarrow>
            dst' ! (t * n + l) = f ! ((t - 1) * n + l) * x ! ((t - 1) * n + l)
              + (1 - f ! ((t - 1) * n + l)) * dst' ! ((t - 1) * n + l)"
  proof (intro allI impI)
    fix t assume t: "ts \<le> t \<and> t \<le> SEQ"
    show "dst' ! (t * n + l) = f ! ((t - 1) * n + l) * x ! ((t - 1) * n + l)
              + (1 - f ! ((t - 1) * n + l)) * dst' ! ((t - 1) * n + l)"
    proof (cases "t = ts")
      case True
      then show ?thesis using cur prev by simp
    next
      case False
      then show ?thesis using d(4) t by simp
    qed
  qed
  show ?case using run d(2) frame post by simp
qed

lemma cell_lane_unique:
  fixes n l l' t t' :: nat
  assumes "l < n" "l' < n" "t * n + l = t' * n + l'"
  shows "l = l'"
proof -
  have "(t * n + l) mod n = l" "(t' * n + l') mod n = l'" using assms(1,2) by simp_all
  with assms(3) show ?thesis by metis
qed

lemma lane_recurrence_cong:
  assumes "\<forall>t \<le> T. B ! (t * n + l) = A ! (t * n + l)" "lane_recurrence n T F X A l"
  shows "lane_recurrence n T F X B l"
  unfolding lane_recurrence_def
proof
  fix t assume t: "t \<in> {1..T}"
  then have "t \<le> T" "t - 1 \<le> T" by auto
  then have "B ! (t * n + l) = A ! (t * n + l)" "B ! ((t - 1) * n + l) = A ! ((t - 1) * n + l)"
    using assms(1) by blast+
  then show "B ! (t * n + l) = F ! ((t - 1) * n + l) * X ! ((t - 1) * n + l)
               + (1 - F ! ((t - 1) * n + l)) * B ! ((t - 1) * n + l)"
    using assms(2) t by (simp add: lane_recurrence_def)
qed

lemma fwd_thread:
  assumes n: "n = HIDDEN * BATCH" and lf: "length f = SEQ * n" and lx: "length x = SEQ * n"
    and ld: "length dst = (SEQ + 1) * n"
  shows "\<exists>dst'. recurrent_forget_mult f x SEQ BATCH HIDDEN tid dst = Some dst'
      \<and> length dst' = length dst
      \<and> (\<forall>k < n. dst' ! k = dst ! k)
      \<and> (\<forall>l \<in> {0..<n}. lane_recurrence n SEQ f x dst l \<or> runs_lane BATCH HIDDEN tid l
            \<longrightarrow> lane_recurrence n SEQ f x dst' l)"
proof -
  obtain hid bid where tid: "tid = (hid, bid)" by (cases tid)
  show ?thesis
  proof (cases "hid < HIDDEN \<and> bid < BATCH")
    case False
    then show ?thesis
      by (auto simp: tid recurrent_forget_mult_def runs_lane_def)
  next
    case True
    define l0 where "l0 = bid * HIDDEN + hid"
    have l0: "l0 < n" using lane_lt[of hid HIDDEN bid BATCH] True n l0_def by simp
    from fwd_loop_lane[of hid HIDDEN bid BATCH n l0 f SEQ x 1 dst] True n l0_def lf lx ld
    obtain dst' where d: "recurrent_forget_mult_loop f x SEQ BATCH HIDDEN bid hid 1 dst = Some dst'"
      "length dst' = length dst"
      "\<forall>k. (\<forall>t. 1 \<le> t \<and> t \<le> SEQ \<longrightarrow> k \<noteq> t * n + l0) \<longrightarrow> dst' ! k = dst ! k"
      "\<forall>t. 1 \<le> t \<and> t \<le> SEQ \<longrightarrow>
            dst' ! (t * n + l0) = f ! ((t - 1) * n + l0) * x ! ((t - 1) * n + l0)
              + (1 - f ! ((t - 1) * n + l0)) * dst' ! ((t - 1) * n + l0)"
      by auto
    have run: "recurrent_forget_mult f x SEQ BATCH HIDDEN tid dst = Some dst'"
      using True d(1) by (simp add: tid recurrent_forget_mult_def)
    have row0: "\<forall>k < n. dst' ! k = dst ! k"
    proof (intro allI impI)
      fix k assume "k < n"
      have "\<And>t::nat. 1 \<le> t \<Longrightarrow> n \<le> t * n" by simp
      then have "\<forall>t. 1 \<le> t \<and> t \<le> SEQ \<longrightarrow> k \<noteq> t * n + l0"
        using \<open>k < n\<close> by (metis le_add1 le_trans not_less)
      then show "dst' ! k = dst ! k" using d(3) by blast
    qed
    have lanes: "\<forall>l \<in> {0..<n}. lane_recurrence n SEQ f x dst l \<or> runs_lane BATCH HIDDEN tid l
            \<longrightarrow> lane_recurrence n SEQ f x dst' l"
    proof (intro ballI impI)
      fix l assume l: "l \<in> {0..<n}" and h: "lane_recurrence n SEQ f x dst l \<or> runs_lane BATCH HIDDEN tid l"
      show "lane_recurrence n SEQ f x dst' l"
      proof (cases "l = l0")
        case True
        then show ?thesis using d(4) by (simp add: lane_recurrence_def)
      next
        case False
        then have old: "lane_recurrence n SEQ f x dst l"
          using h by (simp add: runs_lane_def tid l0_def)
        have "\<forall>t \<le> SEQ. dst' ! (t * n + l) = dst ! (t * n + l)"
        proof (intro allI impI)
          fix t
          have "\<forall>t'. 1 \<le> t' \<and> t' \<le> SEQ \<longrightarrow> t * n + l \<noteq> t' * n + l0"
            using cell_lane_unique[of l n l0] l l0 False by auto
          then show "dst' ! (t * n + l) = dst ! (t * n + l)" using d(3) by blast
        qed
        then show ?thesis using old by (rule lane_recurrence_cong)
      qed
    qed
    show ?thesis using run d(2) row0 lanes by blast
  qed
qed

lemma launch_fwd:
  assumes n: "n = HIDDEN * BATCH" and lf: "length f = SEQ * n" and lx: "length x = SEQ * n"
  shows "length dst = (SEQ + 1) * n \<Longrightarrow>
    \<exists>dst'. launch (recurrent_forget_mult f x SEQ BATCH HIDDEN) threads dst = Some dst'
      \<and> length dst' = length dst
      \<and> (\<forall>k < n. dst' ! k = dst ! k)
      \<and> (\<forall>l \<in> {0..<n}. lane_recurrence n SEQ f x dst l
              \<or> (\<exists>tid \<in> set threads. runs_lane BATCH HIDDEN tid l)
            \<longrightarrow> lane_recurrence n SEQ f x dst' l)"
proof (induction threads arbitrary: dst)
  case Nil
  then show ?case by simp
next
  case (Cons tid threads)
  from fwd_thread[OF n lf lx Cons.prems, of tid]
  obtain dst1 where 1: "recurrent_forget_mult f x SEQ BATCH HIDDEN tid dst = Some dst1"
    "length dst1 = length dst" "\<forall>k < n. dst1 ! k = dst ! k"
    "\<forall>l \<in> {0..<n}. lane_recurrence n SEQ f x dst l \<or> runs_lane BATCH HIDDEN tid l
            \<longrightarrow> lane_recurrence n SEQ f x dst1 l"
    by blast
  have "length dst1 = (SEQ + 1) * n" using 1(2) Cons.prems by simp
  from Cons.IH[OF this]
  obtain dst' where 2: "launch (recurrent_forget_mult f x SEQ BATCH HIDDEN) threads dst1 = Some dst'"
    "length dst' = length dst1" "\<forall>k < n. dst' ! k = dst1 ! k"
    "\<forall>l \<in> {0..<n}. lane_recurrence n SEQ f x dst1 l
              \<or> (\<exists>tid \<in> set threads. runs_lane BATCH HIDDEN tid l)
            \<longrightarrow> lane_recurrence n SEQ f x dst' l"
    by blast
  have "launch (recurrent_forget_mult f x SEQ BATCH HIDDEN) (tid # threads) dst = Some dst'"
    using 1(1) 2(1) by simp
  moreover have "length dst' = length dst" using 1(2) 2(2) by simp
  moreover have "\<forall>k < n. dst' ! k = dst ! k" using 1(3) 2(3) by simp
  moreover have "\<forall>l \<in> {0..<n}. lane_recurrence n SEQ f x dst l
              \<or> (\<exists>t \<in> set (tid # threads). runs_lane BATCH HIDDEN t l)
            \<longrightarrow> lane_recurrence n SEQ f x dst' l"
    using 1(4) 2(4) by auto
  ultimately show ?case by blast
qed

lemma covered_lane:
  assumes "grid_covers BATCH HIDDEN threads" "l < HIDDEN * BATCH"
  shows "\<exists>tid \<in> set threads. runs_lane BATCH HIDDEN tid l"
proof -
  have H: "0 < HIDDEN" using assms(2) by (cases HIDDEN) simp_all
  have "l div HIDDEN < BATCH" using assms(2) H by (simp add: less_mult_imp_div_less mult.commute)
  moreover have "l mod HIDDEN < HIDDEN" using H by simp
  ultimately have "(l mod HIDDEN, l div HIDDEN) \<in> set threads"
    using assms(1) by (simp add: grid_covers_def)
  moreover have "runs_lane BATCH HIDDEN (l mod HIDDEN, l div HIDDEN) l"
    using \<open>l div HIDDEN < BATCH\<close> H by (simp add: runs_lane_def)
  ultimately show ?thesis by blast
qed

lemma launch_fwd_hidden_sequence:
  assumes "length f = SEQ * (HIDDEN * BATCH)" "length x = SEQ * (HIDDEN * BATCH)"
    "length dst = (SEQ + 1) * (HIDDEN * BATCH)" "grid_covers BATCH HIDDEN threads"
  shows "\<exists>dst'. launch (recurrent_forget_mult f x SEQ BATCH HIDDEN) threads dst = Some dst'
      \<and> take (HIDDEN * BATCH) dst' = take (HIDDEN * BATCH) dst
      \<and> hidden_sequence (HIDDEN * BATCH) SEQ f x dst'"
proof -
  from launch_fwd[OF refl assms(1,2,3), of threads]
  obtain dst' where d: "launch (recurrent_forget_mult f x SEQ BATCH HIDDEN) threads dst = Some dst'"
    "length dst' = length dst" "\<forall>k < HIDDEN * BATCH. dst' ! k = dst ! k"
    "\<forall>l \<in> {0..<HIDDEN * BATCH}. lane_recurrence (HIDDEN * BATCH) SEQ f x dst l
              \<or> (\<exists>tid \<in> set threads. runs_lane BATCH HIDDEN tid l)
            \<longrightarrow> lane_recurrence (HIDDEN * BATCH) SEQ f x dst' l"
    by blast
  have "take (HIDDEN * BATCH) dst' = take (HIDDEN * BATCH) dst"
    using d(2,3) by (intro nth_take_lemma) (simp_all add: assms(3))
  moreover have "hidden_sequence (HIDDEN * BATCH) SEQ f x dst'"
    using d(2,4) covered_lane[OF assms(4)] assms(3) by (simp add: hidden_sequence_def)
  ultimately show ?thesis using d(1) by blast
qed

subsection \<open>The sequential module satisfies the recurrence\<close>

lemma nth_concat_uniform:
  "\<forall>r \<in> set rows. length r = n \<Longrightarrow> t < length rows \<Longrightarrow> l < n \<Longrightarrow>
   concat rows ! (t * n + l) = rows ! t ! l"
proof (induction rows arbitrary: t)
  case Nil
  then show ?case by simp
next
  case (Cons r rows)
  show ?case
  proof (cases t)
    case 0
    then show ?thesis using Cons.prems by (simp add: nth_append)
  next
    case (Suc t')
    have "concat (r # rows) ! (Suc t' * n + l) = (r @ concat rows) ! (length r + (t' * n + l))"
      using Cons.prems(1) by (simp add: add.assoc)
    also have "\<dots> = concat rows ! (t' * n + l)"
      by (rule nth_append_length_plus)
    finally show ?thesis using Cons Suc by simp
  qed
qed

lemma length_concat_uniform:
  "\<forall>r \<in> set rows. length r = n \<Longrightarrow> length (concat rows) = length rows * n"
  by (induction rows) simp_all

lemma cpu_rows_lengths:
  "\<forall>r \<in> set frs. length r = n \<Longrightarrow> \<forall>r \<in> set hrs. length r = n \<Longrightarrow> length p = n \<Longrightarrow>
   \<forall>r \<in> set (cpu_rows frs hrs p). length r = n"
  by (induction frs hrs p rule: cpu_rows.induct) (simp_all add: Let_def)

lemma cpu_rows_elem:
  "\<forall>r \<in> set frs. length r = n \<Longrightarrow> \<forall>r \<in> set hrs. length r = n \<Longrightarrow> length p = n \<Longrightarrow>
   t < length frs \<Longrightarrow> t < length hrs \<Longrightarrow> l < n \<Longrightarrow>
   cpu_rows frs hrs p ! t ! l = hrs ! t ! l + (1 - frs ! t ! l) * (p # cpu_rows frs hrs p) ! t ! l"
proof (induction frs hrs p arbitrary: t rule: cpu_rows.induct)
  case (1 fr frs hr hrs p)
  let ?h = "map2 (\<lambda>u v. u + v) hr (map2 (\<lambda>u v. u * v) (map (\<lambda>v. 1 - v) fr) p)"
  have lh: "length ?h = n" using "1.prems" by simp
  show ?case
  proof (cases t)
    case 0
    then show ?thesis using "1.prems" by (simp add: Let_def)
  next
    case (Suc t')
    have "cpu_rows frs hrs ?h ! t' ! l
          = hrs ! t' ! l + (1 - frs ! t' ! l) * (?h # cpu_rows frs hrs ?h) ! t' ! l"
      using "1.prems" Suc lh by (intro "1.IH") simp_all
    then show ?thesis using Suc by (simp add: Let_def)
  qed
qed simp_all

lemma cpu_result_lengths:
  "\<forall>r \<in> set frows. length r = n \<Longrightarrow> \<forall>r \<in> set hrs. length r = n \<Longrightarrow>
   (case h0 of None \<Rightarrow> True | Some p \<Rightarrow> length p = n) \<Longrightarrow>
   \<forall>r \<in> set (cpu_result frows hrs h0). length r = n"
proof (cases h0)
  case None
  assume a: "\<forall>r \<in> set frows. length r = n" "\<forall>r \<in> set hrs. length r = n"
  show ?thesis
  proof (cases hrs)
    case Nil
    then show ?thesis using None by (simp add: cpu_result_def)
  next
    case (Cons hr hrs')
    have "\<forall>r \<in> set (tl frows). length r = n" using a(1) by (cases frows) simp_all
    then have "\<forall>r \<in> set (cpu_rows (tl frows) hrs' hr). length r = n"
      using a(2) Cons by (intro cpu_rows_lengths) simp_all
    then show ?thesis using None Cons a(2) by (simp add: cpu_result_def)
  qed
next
  case (Some p)
  assume "\<forall>r \<in> set frows. length r = n" "\<forall>r \<in> set hrs. length r = n"
    "case h0 of None \<Rightarrow> True | Some p \<Rightarrow> length p = n"
  then show ?thesis using Some cpu_rows_lengths[of frows n hrs p] by (simp add: cpu_result_def)
qed

lemma cpu_result_elem:
  assumes "\<forall>r \<in> set frows. length r = n" "\<forall>r \<in> set hrs. length r = n"
    "case h0 of None \<Rightarrow> True | Some p \<Rightarrow> length p = n"
    "t < length frows" "t < length hrs" "l < n"
  shows "cpu_result frows hrs h0 ! t ! l
         = hrs ! t ! l + (1 - frows ! t ! l)
             * ((case h0 of None \<Rightarrow> replicate n 0 | Some p \<Rightarrow> p) # cpu_result frows hrs h0) ! t ! l"
proof (cases h0)
  case (Some p)
  then show ?thesis using assms cpu_rows_elem[of frows n hrs p t l] by (simp add: cpu_result_def)
next
  case None
  from assms(5) obtain hr hrs' where hrs: "hrs = hr # hrs'" by (cases hrs) auto
  from assms(4) obtain fr frows' where frows: "frows = fr # frows'" by (cases frows) auto
  show ?thesis
  proof (cases t)
    case 0
    then show ?thesis using None hrs assms(6) by (simp add: cpu_result_def)
  next
    case (Suc t')
    have "cpu_rows frows' hrs' hr ! t' ! l
          = hrs' ! t' ! l + (1 - frows' ! t' ! l) * (hr # cpu_rows frows' hrs' hr) ! t' ! l"
      using assms Suc hrs frows by (intro cpu_rows_elem) simp_all
    then show ?thesis using None hrs frows Suc by (simp add: cpu_result_def)
  qed
qed

lemma cpu_hidden_sequence:
  assumes sf: "shape f = T # s" and sx: "shape x = T # s" and wf: "wf_tensor f" and wx: "wf_tensor x"
    and h0: "h0_ok s dev hidden_init"
  shows "hidden_sequence (prod_list s) T (data f) (data x)
           (h0_data (prod_list s) hidden_init
            @ concat (cpu_result (f_rows T (prod_list s) f) (fx_rows T (prod_list s) f x)
                (map_option data hidden_init)))"
proof -
  let ?n = "prod_list s"
  let ?frows = "f_rows T ?n f" and ?hrs = "fx_rows T ?n f x"
  let ?fxd = "map2 (\<lambda>u v. u * v) (data f) (data x)"
  let ?h0 = "map_option data hidden_init"
  let ?p0 = "h0_data ?n hidden_init"
  let ?rows = "cpu_result ?frows ?hrs ?h0"
  have lf: "length (data f) = T * ?n" and lx: "length (data x) = T * ?n"
    using sf sx wf wx by (simp_all add: wf_tensor_def)
  have lfx: "length ?fxd = T * ?n" using lf lx by simp
  have rf: "\<forall>r \<in> set ?frows. length r = ?n"
    unfolding f_rows_def using rows_length[OF lf] by blast
  have rh: "\<forall>r \<in> set ?hrs. length r = ?n"
    unfolding fx_rows_def using rows_length[OF lfx] by blast
  have hl: "case ?h0 of None \<Rightarrow> True | Some p \<Rightarrow> length p = ?n"
    using h0 by (cases hidden_init) (simp_all add: h0_ok_def wf_tensor_def)
  have p0: "?p0 = (case ?h0 of None \<Rightarrow> replicate ?n 0 | Some p \<Rightarrow> p)"
    by (cases hidden_init) (simp_all add: h0_data_def)
  have lp0: "length ?p0 = ?n"
    using h0 by (cases hidden_init) (simp_all add: h0_data_def h0_ok_def wf_tensor_def)
  have lrows: "length ?rows = T"
    by (rule length_cpu_result) (simp_all add: f_rows_def fx_rows_def)
  have rl: "\<forall>r \<in> set (?p0 # ?rows). length r = ?n"
    using cpu_result_lengths[OF rf rh hl] lp0 by simp
  have full: "?p0 @ concat ?rows = concat (?p0 # ?rows)" by simp
  have len: "length (?p0 @ concat ?rows) = (T + 1) * ?n"
    unfolding full using length_concat_uniform[OF rl] lrows by simp
  have rec: "lane_recurrence ?n T (data f) (data x) (?p0 @ concat ?rows) l" if l: "l < ?n" for l
    unfolding lane_recurrence_def full
  proof
    fix t assume "t \<in> {1..T}"
    then obtain t' where t: "t = Suc t'" "t' < T" by (cases t) auto
    have i: "(t' + 1) * ?n \<le> T * ?n" using t(2) by (intro mult_le_mono1) simp
    have a: "concat (?p0 # ?rows) ! (t * ?n + l) = ?rows ! t' ! l"
      using nth_concat_uniform[OF rl, of t l] l t lrows by simp
    have b: "concat (?p0 # ?rows) ! ((t - 1) * ?n + l) = (?p0 # ?rows) ! t' ! l"
      using nth_concat_uniform[OF rl, of t' l] l t lrows by simp
    have c: "?frows ! t' ! l = data f ! (t' * ?n + l)"
      using t(2) l i lf by (simp add: f_rows_def nth_row)
    have "t' * ?n + l < T * ?n" using i l by simp
    then have d: "?hrs ! t' ! l = data f ! (t' * ?n + l) * data x ! (t' * ?n + l)"
      using t(2) l i lf lx by (simp add: fx_rows_def nth_row)
    have "?rows ! t' ! l = ?hrs ! t' ! l + (1 - ?frows ! t' ! l) * (?p0 # ?rows) ! t' ! l"
      unfolding p0 using t(2) l
      by (intro cpu_result_elem[OF rf rh hl]) (simp_all add: f_rows_def fx_rows_def)
    then show "concat (?p0 # ?rows) ! (t * ?n + l)
          = data f ! ((t - 1) * ?n + l) * data x ! ((t - 1) * ?n + l)
            + (1 - data f ! ((t - 1) * ?n + l)) * concat (?p0 # ?rows) ! ((t - 1) * ?n + l)"
      unfolding a b using c d t(1) by simp
  qed
  show ?thesis
    unfolding hidden_sequence_def using len rec by simp
qed

subsection \<open>The recurrence determines the sequence\<close>

lemma hidden_sequence_unique:
  assumes A: "hidden_sequence n T F X A" and B: "hidden_sequence n T F X B"
    and r0: "take n A = take n B"
  shows "A = B"
proof (rule nth_equalityI)
  show len: "length A = length B" using A B by (simp add: hidden_sequence_def)
  fix k assume k: "k < length A"
  then have kn: "k < (T + 1) * n" using A by (simp add: hidden_sequence_def)
  then have n: "0 < n" by (cases n) simp_all
  define l where "l = k mod n"
  have l: "l < n" using n by (simp add: l_def)
  have kd: "k = (k div n) * n + l" by (simp add: l_def)
  have "k div n < T + 1" using kn by (rule less_mult_imp_div_less)
  then have td: "k div n \<le> T" by simp
  have rA: "lane_recurrence n T F X A l" and rB: "lane_recurrence n T F X B l"
    using A B l by (simp_all add: hidden_sequence_def)
  have "t \<le> T \<Longrightarrow> A ! (t * n + l) = B ! (t * n + l)" for t
  proof (induction t)
    case 0
    have "A ! l = take n A ! l" "B ! l = take n B ! l" using l by simp_all
    then show ?case using r0 by simp
  next
    case (Suc t)
    then have m: "Suc t \<in> {1..T}" and ih: "A ! (t * n + l) = B ! (t * n + l)" by simp_all
    have "A ! (Suc t * n + l) = F ! ((Suc t - 1) * n + l) * X ! ((Suc t - 1) * n + l)
            + (1 - F ! ((Suc t - 1) * n + l)) * A ! ((Suc t - 1) * n + l)"
      using rA m unfolding lane_recurrence_def by (rule bspec)
    moreover have "B ! (Suc t * n + l) = F ! ((Suc t - 1) * n + l) * X ! ((Suc t - 1) * n + l)
            + (1 - F ! ((Suc t - 1) * n + l)) * B ! ((Suc t - 1) * n + l)"
      using rB m unfolding lane_recurrence_def by (rule bspec)
    ultimately show ?case using ih by simp
  qed
  from this[OF td] kd show "A ! k = B ! k" by simp
qed

lemma forward_inputs_rows:
  assumes "forward_inputs T BATCH HIDDEN f x hidden_init"
  shows "shape f = T # [BATCH, HIDDEN]" "shape x = T # [BATCH, HIDDEN]" "wf_tensor f" "wf_tensor x"
    "device x = device f" "h0_ok [BATCH, HIDDEN] (device f) hidden_init"
    "prod_list [BATCH, HIDDEN] = HIDDEN * BATCH"
    "length (data f) = T * (HIDDEN * BATCH)" "length (data x) = T * (HIDDEN * BATCH)"
  using assms by (auto simp: forward_inputs_def h0_ok_def wf_tensor_def mult.commute split: option.splits)

lemma cpu_forward_correct:
  assumes fi: "forward_inputs T BATCH HIDDEN f x hidden_init" and T: "0 < T"
  shows "\<exists>out. CPUForgetMult_forward f x hidden_init = Inr out
           \<and> shape out = [T, BATCH, HIDDEN] \<and> device out = device f
           \<and> hidden_sequence (HIDDEN * BATCH) T (data f) (data x)
                (h0_data (HIDDEN * BATCH) hidden_init @ data out)"
proof -
  note r = forward_inputs_rows[OF fi]
  have "CPUForgetMult_forward f x hidden_init
         = Inr (mk_tensor (T # [BATCH, HIDDEN]) (device f)
                 (concat (cpu_result (f_rows T (prod_list [BATCH, HIDDEN]) f)
                    (fx_rows T (prod_list [BATCH, HIDDEN]) f x) (map_option data hidden_init))))"
    by (rule CPUForgetMult_forward_rows[OF r(1-5) T r(6)])
  moreover have "hidden_sequence (prod_list [BATCH, HIDDEN]) T (data f) (data x)
           (h0_data (prod_list [BATCH, HIDDEN]) hidden_init
            @ concat (cpu_result (f_rows T (prod_list [BATCH, HIDDEN]) f)
                (fx_rows T (prod_list [BATCH, HIDDEN]) f x) (map_option data hidden_init)))"
    by (rule cpu_hidden_sequence[OF r(1-4,6)])
  ultimately show ?thesis unfolding r(7) by simp
qed

lemma backends_agree:
  assumes fi: "forward_inputs T BATCH HIDDEN f x hidden_init" and T: "0 < T"
    and ld: "length dst = (T + 1) * (HIDDEN * BATCH)"
    and d0: "take (HIDDEN * BATCH) dst = h0_data (HIDDEN * BATCH) hidden_init"
    and gc: "grid_covers BATCH HIDDEN threads"
  shows "\<exists>out dst'. CPUForgetMult_forward f x hidden_init = Inr out
           \<and> launch (recurrent_forget_mult (data f) (data x) T BATCH HIDDEN) threads dst = Some dst'
           \<and> shape out = [T, BATCH, HIDDEN]
           \<and> data out = drop (HIDDEN * BATCH) dst'"
proof -
  note r = forward_inputs_rows[OF fi]
  let ?n = "HIDDEN * BATCH"
  from cpu_forward_correct[OF fi T] obtain out where
    o: "CPUForgetMult_forward f x hidden_init = Inr out" "shape out = [T, BATCH, HIDDEN]"
      "hidden_sequence ?n T (data f) (data x) (h0_data ?n hidden_init @ data out)"
    by blast
  from launch_fwd_hidden_sequence[OF r(8,9) ld gc] obtain dst' where
    k: "launch (recurrent_forget_mult (data f) (data x) T BATCH HIDDEN) threads dst = Some dst'"
      "take ?n dst' = take ?n dst" "hidden_sequence ?n T (data f) (data x) dst'"
    by blast
  have l0: "length (h0_data ?n hidden_init) = ?n"
    using d0[symmetric] ld by simp
  have "take ?n (h0_data ?n hidden_init @ data out) = take ?n dst'"
    using l0 k(2) d0 by simp
  then have "h0_data ?n hidden_init @ data out = dst'"
    by (rule hidden_sequence_unique[OF o(3) k(3)])
  then have "drop ?n dst' = data out" using l0 by (metis append_eq_conv_conj)
  then show ?thesis using o(1,2) k(1) by simp
qed

subsection \<open>The backward kernel\<close>

lemma cell_lt:
  fixes n l ts SEQ :: nat
  assumes "l < n" "1 \<le> ts" "ts \<le> SEQ"
  shows "(ts - 1) * n + l < SEQ * n"
proof -
  have "(ts - 1) * n + l < ts * n" using assms(1,2) by (cases ts) simp_all
  also have "\<dots> \<le> SEQ * n" using assms(3) by (intro mult_le_mono1)
  finally show ?thesis .
qed

lemma bwd_body_lane:
  assumes "hid < HIDDEN" "bid < BATCH" "1 \<le> ts" "ts \<le> SEQ"
    and n: "n = HIDDEN * BATCH" and l: "l = bid * HIDDEN + hid"
    and "SEQ * n \<le> length h" "length f = SEQ * n" "length x = SEQ * n" "length gh = SEQ * n"
    "length (gf g) = SEQ * n" "length (gx g) = SEQ * n"
  shows "bwd_recurrent_forget_mult_body h f x gh BATCH HIDDEN bid hid ts (r, g)
         = Some (attenuate (f ! ((ts - 1) * n + l)) (r + gh ! ((ts - 1) * n + l)),
                 g\<lparr>gx := (gx g)[(ts - 1) * n + l := f ! ((ts - 1) * n + l) * (r + gh ! ((ts - 1) * n + l))],
                   gf := (gf g)[(ts - 1) * n + l :=
                           (x ! ((ts - 1) * n + l) - h ! ((ts - 1) * n + l)) * (r + gh ! ((ts - 1) * n + l))]\<rparr>)"
proof -
  have ln: "l < n" using lane_lt[OF assms(1,2)] n l by simp
  have a: "(ts - 1) * HIDDEN * BATCH + bid * HIDDEN + hid = (ts - 1) * n + l"
    by (simp add: n l mult.assoc)
  have d: "(ts - 1) * n + l < SEQ * n" using cell_lt[OF ln assms(3,4)] .
  show ?thesis
    unfolding bwd_recurrent_forget_mult_body_def a Let_def
    using d assms(7-12) by simp
qed

lemma bwd_loop_lane:
  assumes hb: "hid < HIDDEN" "bid < BATCH"
    and n: "n = HIDDEN * BATCH" and l: "l = bid * HIDDEN + hid"
    and lh: "SEQ * n \<le> length h" and lf: "length f = SEQ * n" and lx: "length x = SEQ * n"
    and lgh: "length gh = SEQ * n"
  shows "ts \<le> SEQ \<Longrightarrow> length (gf g) = SEQ * n \<Longrightarrow> length (gx g) = SEQ * n \<Longrightarrow>
    r = spec_acc n f gh SEQ l (SEQ - ts) \<Longrightarrow>
    \<exists>g'. bwd_recurrent_forget_mult_loop h f x gh BATCH HIDDEN bid hid ts (r, g)
             = Some (spec_acc n f gh SEQ l SEQ, g')
      \<and> length (gf g') = SEQ * n \<and> length (gx g') = SEQ * n \<and> ghinit g' = ghinit g
      \<and> (\<forall>k. (\<forall>t. 1 \<le> t \<and> t \<le> ts \<longrightarrow> k \<noteq> (t - 1) * n + l)
              \<longrightarrow> gx g' ! k = gx g ! k \<and> gf g' ! k = gf g ! k)
      \<and> (\<forall>t. 1 \<le> t \<and> t \<le> ts \<longrightarrow>
            gx g' ! ((t - 1) * n + l)
              = f ! ((t - 1) * n + l) * (spec_acc n f gh SEQ l (SEQ - t) + gh ! ((t - 1) * n + l))
          \<and> gf g' ! ((t - 1) * n + l)
              = (x ! ((t - 1) * n + l) - h ! ((t - 1) * n + l))
                  * (spec_acc n f gh SEQ l (SEQ - t) + gh ! ((t - 1) * n + l)))"
proof (induction ts arbitrary: r g)
  case 0
  then show ?case by simp
next
  case (Suc m)
  have ln: "l < n" using lane_lt[OF hb] n l by simp
  let ?i = "m * n + l"
  let ?r1 = "r + gh ! ?i"
  let ?g2 = "g\<lparr>gx := (gx g)[?i := f ! ?i * ?r1], gf := (gf g)[?i := (x ! ?i - h ! ?i) * ?r1]\<rparr>"
  let ?r2 = "attenuate (f ! ?i) ?r1"
  have ts: "1 \<le> Suc m" "Suc m \<le> SEQ" using Suc.prems by simp_all
  have body: "bwd_recurrent_forget_mult_body h f x gh BATCH HIDDEN bid hid (Suc m) (r, g) = Some (?r2, ?g2)"
    using bwd_body_lane[OF hb ts n l lh lf lx lgh Suc.prems(2,3), of r] by simp
  have i: "?i < SEQ * n" using cell_lt[OF ln ts] by simp
  have k: "SEQ - m = Suc (SEQ - Suc m)" "SEQ - Suc (SEQ - Suc m) = m" using ts(2) by simp_all
  have r2: "?r2 = spec_acc n f gh SEQ l (SEQ - m)"
    unfolding k(1) using Suc.prems(4) by (simp add: attenuate_def Let_def k(2))
  have "m \<le> SEQ" "length (gf ?g2) = SEQ * n" "length (gx ?g2) = SEQ * n"
    using ts Suc.prems by simp_all
  from Suc.IH[OF this r2]
  obtain g' where g': "bwd_recurrent_forget_mult_loop h f x gh BATCH HIDDEN bid hid m (?r2, ?g2)
             = Some (spec_acc n f gh SEQ l SEQ, g')"
    "length (gf g') = SEQ * n" "length (gx g') = SEQ * n" "ghinit g' = ghinit ?g2"
    "\<forall>k. (\<forall>t. 1 \<le> t \<and> t \<le> m \<longrightarrow> k \<noteq> (t - 1) * n + l)
              \<longrightarrow> gx g' ! k = gx ?g2 ! k \<and> gf g' ! k = gf ?g2 ! k"
    "\<forall>t. 1 \<le> t \<and> t \<le> m \<longrightarrow>
            gx g' ! ((t - 1) * n + l)
              = f ! ((t - 1) * n + l) * (spec_acc n f gh SEQ l (SEQ - t) + gh ! ((t - 1) * n + l))
          \<and> gf g' ! ((t - 1) * n + l)
              = (x ! ((t - 1) * n + l) - h ! ((t - 1) * n + l))
                  * (spec_acc n f gh SEQ l (SEQ - t) + gh ! ((t - 1) * n + l))"
    by blast
  have run: "bwd_recurrent_forget_mult_loop h f x gh BATCH HIDDEN bid hid (Suc m) (r, g)
             = Some (spec_acc n f gh SEQ l SEQ, g')"
    using body g'(1) by simp
  have sep: "\<forall>t. 1 \<le> t \<and> t \<le> m \<longrightarrow> ?i \<noteq> (t - 1) * n + l"
    using ln by auto
  have "gx g' ! ?i = gx ?g2 ! ?i \<and> gf g' ! ?i = gf ?g2 ! ?i"
    using g'(5) sep by blast
  then have cur: "gx g' ! ?i = f ! ?i * ?r1" "gf g' ! ?i = (x ! ?i - h ! ?i) * ?r1"
    using i Suc.prems(2,3) by simp_all
  have frame: "\<forall>k. (\<forall>t. 1 \<le> t \<and> t \<le> Suc m \<longrightarrow> k \<noteq> (t - 1) * n + l)
              \<longrightarrow> gx g' ! k = gx g ! k \<and> gf g' ! k = gf g ! k"
  proof (intro allI impI)
    fix k assume a: "\<forall>t. 1 \<le> t \<and> t \<le> Suc m \<longrightarrow> k \<noteq> (t - 1) * n + l"
    then have "1 \<le> Suc m \<and> Suc m \<le> Suc m \<longrightarrow> k \<noteq> (Suc m - 1) * n + l" by (rule spec)
    then have ne: "k \<noteq> ?i" by simp
    have "\<forall>t. 1 \<le> t \<and> t \<le> m \<longrightarrow> k \<noteq> (t - 1) * n + l"
    proof (intro allI impI)
      fix t assume "1 \<le> t \<and> t \<le> m"
      then have "1 \<le> t \<and> t \<le> Suc m" by simp
      with a show "k \<noteq> (t - 1) * n + l" by blast
    qed
    then have "gx g' ! k = gx ?g2 ! k \<and> gf g' ! k = gf ?g2 ! k" using g'(5) by blast
    then show "gx g' ! k = gx g ! k \<and> gf g' ! k = gf g ! k" using ne by simp
  qed
  have post: "\<forall>t. 1 \<le> t \<and> t \<le> Suc m \<longrightarrow>
            gx g' ! ((t - 1) * n + l)
              = f ! ((t - 1) * n + l) * (spec_acc n f gh SEQ l (SEQ - t) + gh ! ((t - 1) * n + l))
          \<and> gf g' ! ((t - 1) * n + l)
              = (x ! ((t - 1) * n + l) - h ! ((t - 1) * n + l))
                  * (spec_acc n f gh SEQ l (SEQ - t) + gh ! ((t - 1) * n + l))"
  proof (intro allI impI)
    fix t assume t: "1 \<le> t \<and> t \<le> Suc m"
    show "gx g' ! ((t - 1) * n + l)
              = f ! ((t - 1) * n + l) * (spec_acc n f gh SEQ l (SEQ - t) + gh ! ((t - 1) * n + l))
          \<and> gf g' ! ((t - 1) * n + l)
              = (x ! ((t - 1) * n + l) - h ! ((t - 1) * n + l))
                  * (spec_acc n f gh SEQ l (SEQ - t) + gh ! ((t - 1) * n + l))"
    proof (cases "t = Suc m")
      case True
      then show ?thesis using cur Suc.prems(4) by simp
    next
      case False
      then have "1 \<le> t \<and> t \<le> m" using t by simp
      then show ?thesis using g'(6) by blast
    qed
  qed
  have "ghinit g' = ghinit g" using g'(4) by simp
  then show ?case using run g'(2,3) frame post by blast
qed

lemma bwd_lane_ok_cong:
  assumes "ghinit g' ! l = ghinit g ! l"
    "\<forall>t. 1 \<le> t \<and> t \<le> T \<longrightarrow> gx g' ! ((t - 1) * n + l) = gx g ! ((t - 1) * n + l)
        \<and> gf g' ! ((t - 1) * n + l) = gf g ! ((t - 1) * n + l)"
    "bwd_lane_ok n T h f x gh g l"
  shows "bwd_lane_ok n T h f x gh g' l"
  using assms unfolding bwd_lane_ok_def by simp

lemma bwd_thread:
  assumes n: "n = HIDDEN * BATCH" and lh: "SEQ * n \<le> length h" and lf: "length f = SEQ * n"
    and lx: "length x = SEQ * n" and lgh: "length gh = SEQ * n"
    and lgf: "length (gf g) = SEQ * n" and lgx: "length (gx g) = SEQ * n"
    and lgi: "length (ghinit g) = n"
  shows "\<exists>g'. bwd_recurrent_forget_mult h f x gh SEQ BATCH HIDDEN tid g = Some g'
      \<and> length (gf g') = SEQ * n \<and> length (gx g') = SEQ * n \<and> length (ghinit g') = n
      \<and> (\<forall>l \<in> {0..<n}. bwd_lane_ok n SEQ h f x gh g l \<or> runs_lane BATCH HIDDEN tid l
            \<longrightarrow> bwd_lane_ok n SEQ h f x gh g' l)"
proof -
  obtain hid bid where tid: "tid = (hid, bid)" by (cases tid)
  show ?thesis
  proof (cases "hid < HIDDEN \<and> bid < BATCH")
    case False
    then show ?thesis
      using lgf lgx lgi by (auto simp: tid bwd_recurrent_forget_mult_def runs_lane_def)
  next
    case True
    define l0 where "l0 = bid * HIDDEN + hid"
    have l0: "l0 < n" using lane_lt[of hid HIDDEN bid BATCH] True n l0_def by simp
    have hb: "hid < HIDDEN" "bid < BATCH" using True by simp_all
    have r0: "(0::real) = spec_acc n f gh SEQ l0 (SEQ - SEQ)" by simp
    from bwd_loop_lane[OF hb n l0_def lh lf lx lgh le_refl lgf lgx r0]
    obtain g1 where g1: "bwd_recurrent_forget_mult_loop h f x gh BATCH HIDDEN bid hid SEQ (0, g)
             = Some (spec_acc n f gh SEQ l0 SEQ, g1)"
      "length (gf g1) = SEQ * n" "length (gx g1) = SEQ * n" "ghinit g1 = ghinit g"
      "\<forall>k. (\<forall>t. 1 \<le> t \<and> t \<le> SEQ \<longrightarrow> k \<noteq> (t - 1) * n + l0)
              \<longrightarrow> gx g1 ! k = gx g ! k \<and> gf g1 ! k = gf g ! k"
      "\<forall>t. 1 \<le> t \<and> t \<le> SEQ \<longrightarrow>
            gx g1 ! ((t - 1) * n + l0)
              = f ! ((t - 1) * n + l0) * (spec_acc n f gh SEQ l0 (SEQ - t) + gh ! ((t - 1) * n + l0))
          \<and> gf g1 ! ((t - 1) * n + l0)
              = (x ! ((t - 1) * n + l0) - h ! ((t - 1) * n + l0))
                  * (spec_acc n f gh SEQ l0 (SEQ - t) + gh ! ((t - 1) * n + l0))"
      by blast
    let ?g' = "g1\<lparr>ghinit := (ghinit g1)[l0 := spec_acc n f gh SEQ l0 SEQ]\<rparr>"
    have run: "bwd_recurrent_forget_mult h f x gh SEQ BATCH HIDDEN tid g = Some ?g'"
      using True g1(1,4) l0 lgi by (simp add: tid bwd_recurrent_forget_mult_def l0_def)
    have lens: "length (gf ?g') = SEQ * n" "length (gx ?g') = SEQ * n" "length (ghinit ?g') = n"
      using g1(2,3,4) lgi by simp_all
    have lanes: "\<forall>l \<in> {0..<n}. bwd_lane_ok n SEQ h f x gh g l \<or> runs_lane BATCH HIDDEN tid l
            \<longrightarrow> bwd_lane_ok n SEQ h f x gh ?g' l"
    proof (intro ballI impI)
      fix l assume l: "l \<in> {0..<n}"
        and a: "bwd_lane_ok n SEQ h f x gh g l \<or> runs_lane BATCH HIDDEN tid l"
      show "bwd_lane_ok n SEQ h f x gh ?g' l"
      proof (cases "l = l0")
        case True
        have "ghinit ?g' ! l0 = spec_acc n f gh SEQ l0 SEQ"
          using l0 g1(4) lgi by simp
        then show ?thesis using g1(6) True by (simp add: bwd_lane_ok_def)
      next
        case False
        then have old: "bwd_lane_ok n SEQ h f x gh g l"
          using a by (simp add: runs_lane_def tid l0_def)
        have gi: "ghinit ?g' ! l = ghinit g ! l" using False g1(4) by simp
        have cells: "\<forall>t. 1 \<le> t \<and> t \<le> SEQ \<longrightarrow>
            gx ?g' ! ((t - 1) * n + l) = gx g ! ((t - 1) * n + l)
            \<and> gf ?g' ! ((t - 1) * n + l) = gf g ! ((t - 1) * n + l)"
        proof (intro allI impI)
          fix t
          have "\<forall>t'. 1 \<le> t' \<and> t' \<le> SEQ \<longrightarrow> (t - 1) * n + l \<noteq> (t' - 1) * n + l0"
            using cell_lane_unique[of l n l0] l l0 False by auto
          then have "gx g1 ! ((t - 1) * n + l) = gx g ! ((t - 1) * n + l)
              \<and> gf g1 ! ((t - 1) * n + l) = gf g ! ((t - 1) * n + l)"
            using g1(5) by blast
          then show "gx ?g' ! ((t - 1) * n + l) = gx g ! ((t - 1) * n + l)
            \<and> gf ?g' ! ((t - 1) * n + l) = gf g ! ((t - 1) * n + l)" by simp
        qed
        show ?thesis using gi cells old by (rule bwd_lane_ok_cong)
      qed
    qed
    show ?thesis using run lens lanes by blast
  qed
qed

lemma launch_bwd:
  assumes n: "n = HIDDEN * BATCH" and lh: "SEQ * n \<le> length h" and lf: "length f = SEQ * n"
    and lx: "length x = SEQ * n" and lgh: "length gh = SEQ * n"
  shows "length (gf g) = SEQ * n \<Longrightarrow> length (gx g) = SEQ * n \<Longrightarrow> length (ghinit g) = n \<Longrightarrow>
    \<exists>g'. launch (bwd_recurrent_forget_mult h f x gh SEQ BATCH HIDDEN) threads g = Some g'
      \<and> length (gf g') = SEQ * n \<and> length (gx g') = SEQ * n \<and> length (ghinit g') = n
      \<and> (\<forall>l \<in> {0..<n}. bwd_lane_ok n SEQ h f x gh g l
              \<or> (\<exists>tid \<in> set threads. runs_lane BATCH HIDDEN tid l)
            \<longrightarrow> bwd_lane_ok n SEQ h f x gh g' l)"
proof (induction threads arbitrary: g)
  case Nil
  then show ?case by simp
next
  case (Cons tid threads)
  from bwd_thread[OF n lh lf lx lgh Cons.prems, of tid]
  obtain g1 where 1: "bwd_recurrent_forget_mult h f x gh SEQ BATCH HIDDEN tid g = Some g1"
    "length (gf g1) = SEQ * n" "length (gx g1) = SEQ * n" "length (ghinit g1) = n"
    "\<forall>l \<in> {0..<n}. bwd_lane_ok n SEQ h f x gh g l \<or> runs_lane BATCH HIDDEN tid l
            \<longrightarrow> bwd_lane_ok n SEQ h f x gh g1 l"
    by blast
  from Cons.IH[OF 1(2,3,4)]
  obtain g' where 2: "launch (bwd_recurrent_forget_mult h f x gh SEQ BATCH HIDDEN) threads g1 = Some g'"
    "length (gf g') = SEQ * n" "length (gx g') = SEQ * n" "length (ghinit g') = n"
    "\<forall>l \<in> {0..<n}. bwd_lane_ok n SEQ h f x gh g1 l
              \<or> (\<exists>tid \<in> set threads. runs_lane BATCH HIDDEN tid l)
            \<longrightarrow> bwd_lane_ok n SEQ h f x gh g' l"
    by blast
  have "launch (bwd_recurrent_forget_mult h f x gh SEQ BATCH HIDDEN) (tid # threads) g = Some g'"
    using 1(1) 2(1) by simp
  moreover have "\<forall>l \<in> {0..<n}. bwd_lane_ok n SEQ h f x gh g l
              \<or> (\<exists>t \<in> set (tid # threads). runs_lane BATCH HIDDEN t l)
            \<longrightarrow> bwd_lane_ok n SEQ h f x gh g' l"
    using 1(5) 2(5) by auto
  ultimately show ?case using 2(2,3,4) by blast
qed

lemma launch_bwd_result:
  assumes "length h = (SEQ + 1) * (HIDDEN * BATCH)" "length f = SEQ * (HIDDEN * BATCH)"
    "length x = SEQ * (HIDDEN * BATCH)" "length gh = SEQ * (HIDDEN * BATCH)"
    "length (gf g) = SEQ * (HIDDEN * BATCH)" "length (gx g) = SEQ * (HIDDEN * BATCH)"
    "length (ghinit g) = HIDDEN * BATCH" "grid_covers BATCH HIDDEN threads"
  shows "\<exists>g'. launch (bwd_recurrent_forget_mult h f x gh SEQ BATCH HIDDEN) threads g = Some g'
      \<and> backward_result (HIDDEN * BATCH) SEQ h f x gh g'"
proof -
  have lh: "SEQ * (HIDDEN * BATCH) \<le> length h" using assms(1) by simp
  from launch_bwd[OF refl lh assms(2,3,4,5,6,7), of threads]
  obtain g' where g': "launch (bwd_recurrent_forget_mult h f x gh SEQ BATCH HIDDEN) threads g = Some g'"
    "length (gf g') = SEQ * (HIDDEN * BATCH)" "length (gx g') = SEQ * (HIDDEN * BATCH)"
    "length (ghinit g') = HIDDEN * BATCH"
    "\<forall>l \<in> {0..<HIDDEN * BATCH}. bwd_lane_ok (HIDDEN * BATCH) SEQ h f x gh g l
              \<or> (\<exists>tid \<in> set threads. runs_lane BATCH HIDDEN tid l)
            \<longrightarrow> bwd_lane_ok (HIDDEN * BATCH) SEQ h f x gh g' l"
    by blast
  have "backward_result (HIDDEN * BATCH) SEQ h f x gh g'"
    using g'(2,3,4,5) covered_lane[OF assms(8)] by (simp add: backward_result_def)
  then show ?thesis using g'(1) by blast
qed


subsection \<open>Empty sequences, absent initial states and shapes that do not match\<close>

lemma map2_add_mult_zero:
  assumes "length a = n" "length hr = n"
  shows "map2 (\<lambda>u v. u + v) hr (map2 (\<lambda>u v. u * v) a (replicate n (0::real))) = hr"
  using assms by (intro nth_equalityI) simp_all

lemma cpu_result_zeros:
  assumes "\<forall>r \<in> set frows. length r = n" "\<forall>r \<in> set hrs. length r = n" "length frows = length hrs"
  shows "cpu_result frows hrs (Some (replicate n 0)) = cpu_result frows hrs None"
proof (cases hrs)
  case Nil
  then show ?thesis by (cases frows) (simp_all add: cpu_result_def)
next
  case (Cons hr hrs')
  with assms(3) obtain fr frows' where fr: "frows = fr # frows'" by (cases frows) auto
  have "map2 (\<lambda>u v. u + v) hr (map2 (\<lambda>u v. u * v) (map (\<lambda>v. 1 - v) fr) (replicate n 0)) = hr"
    using assms(1,2) Cons fr by (intro map2_add_mult_zero) simp_all
  then show ?thesis using Cons fr by (simp add: cpu_result_def Let_def)
qed

lemma empty_forward:
  assumes sf: "shape f = 0 # s" and sx: "shape x = 0 # s" and wf: "wf_tensor f" and wx: "wf_tensor x"
    and dx: "device x = device f" and h0: "h0_ok s (device f) hidden_init"
  shows "CPUForgetMult_forward f x hidden_init
         = (if prod_list s = 0 then Inr (mk_tensor (Suc 0 # s) (device f) []) else Inl RuntimeError)"
proof -
  let ?dev = "device f"
  let ?e = "mk_tensor (0 # s) ?dev []"
  have f: "f = ?e" using sf wf by (simp add: mk_tensor_def wf_tensor_def)
  have x: "x = ?e" using sx wx dx by (simp add: mk_tensor_def wf_tensor_def)
  have 1: "split1 ?e = Inr [?e]" by (simp add: split1_def mk_tensor_def)
  have 2: "tmul ?e ?e = Inr ?e" by (simp add: tmul_same)
  have 3: "(case hidden_init of
              None \<Rightarrow> Inr ?e
            | Some p \<Rightarrow>
                if 0 < length [?e]
                then (case tmul (rsub 1 ([?e] ! 0)) p of Inl e \<Rightarrow> Inl e | Inr m \<Rightarrow> tadd ?e m)
                else Inl IndexError) = Inr ?e"
  proof (cases hidden_init)
    case None
    then show ?thesis by simp
  next
    case (Some p)
    then have p: "wf_tensor p" "shape p = s" "device p = ?dev"
      using h0 by (simp_all add: h0_ok_def)
    have "binop (\<lambda>u v. u * v) ?e p
          = Inr \<lparr>shape = shape ?e, data = map2 (\<lambda>u v. u * v) (data ?e) (concat (replicate 0 (data p))),
                 device = device ?e\<rparr>"
      using p by (intro binop_lead) simp_all
    then have "tmul (rsub 1 ?e) p = Inr ?e"
      by (simp add: tmul_def rsub_mk)
    then show ?thesis using Some by (simp add: tadd_same)
  qed
  have 4: "view ?e (tl (shape ?e)) = (if prod_list s = 0 then Inr (mk_tensor s ?dev []) else Inl RuntimeError)"
    by (simp add: view_def numel_def mk_tensor_def)
  have 5: "stack [mk_tensor s ?dev []] = Inr (mk_tensor (Suc 0 # s) ?dev [])"
    by (simp add: stack_def mk_tensor_def)
  have 6: "forward_loop [?e] 0 [?e] hidden_init []
           = (if prod_list s = 0 then Inr [mk_tensor s ?dev []] else Inl RuntimeError)"
    unfolding forward_loop.simps 3 by (simp add: 4 del: mk_tensor_sel)
  have "CPUForgetMult_forward ?e ?e hidden_init
         = (if prod_list s = 0 then Inr (mk_tensor (Suc 0 # s) ?dev []) else Inl RuntimeError)"
    unfolding CPUForgetMult_forward_def by (simp add: 1 2 5 6 del: mk_tensor_sel forward_loop.simps)
  then show ?thesis using f x by simp
qed

lemma forward_inputs_zeros:
  "forward_inputs T BATCH HIDDEN f x None \<Longrightarrow>
   forward_inputs T BATCH HIDDEN f x (Some (zeros [BATCH, HIDDEN] (device f)))"
  by (simp add: forward_inputs_def zeros_def wf_tensor_def)

lemma cpu_none_eq_zeros:
  assumes fi: "forward_inputs T BATCH HIDDEN f x None"
  shows "CPUForgetMult_forward f x (Some (zeros [BATCH, HIDDEN] (device f)))
         = CPUForgetMult_forward f x None"
proof (cases "T = 0")
  case True
  note r = forward_inputs_rows[OF fi]
  note rz = forward_inputs_rows[OF forward_inputs_zeros[OF fi]]
  show ?thesis
    using empty_forward[OF r(1)[unfolded True] r(2)[unfolded True] r(3,4,5) r(6)]
      empty_forward[OF rz(1)[unfolded True] rz(2)[unfolded True] rz(3,4,5) rz(6)]
    by simp
next
  case False
  then have T: "0 < T" by simp
  note r = forward_inputs_rows[OF fi]
  note rz = forward_inputs_rows[OF forward_inputs_zeros[OF fi]]
  let ?n = "prod_list [BATCH, HIDDEN]"
  let ?frows = "f_rows T ?n f" and ?hrs = "fx_rows T ?n f x"
  have lf: "length (data f) = T * ?n" and lx: "length (data x) = T * ?n"
    using r(8,9) r(7) by simp_all
  have lfx: "length (map2 (\<lambda>u v. u * v) (data f) (data x)) = T * ?n" using lf lx by simp
  have rf: "\<forall>r \<in> set ?frows. length r = ?n"
    unfolding f_rows_def using rows_length[OF lf] by blast
  have rh: "\<forall>r \<in> set ?hrs. length r = ?n"
    unfolding fx_rows_def using rows_length[OF lfx] by blast
  have len: "length ?frows = length ?hrs" by (simp add: f_rows_def fx_rows_def)
  have z: "map_option data (Some (zeros [BATCH, HIDDEN] (device f))) = Some (replicate ?n 0)"
    by (simp add: zeros_def)
  show ?thesis
    unfolding CPUForgetMult_forward_rows[OF r(1-5) T r(6)]
      CPUForgetMult_forward_rows[OF rz(1-5) T rz(6)] z cpu_result_zeros[OF rf rh len]
    by simp
qed

lemma split1_error: "split1 t = Inl e \<Longrightarrow> e = RuntimeError"
  by (auto simp: split1_def split: list.splits)

lemma binop_not_broadcastable:
  "broadcast_shapes (shape a) (shape b) = None \<Longrightarrow> binop g a b = Inl RuntimeError"
  by (simp add: binop_def split: option.splits)

lemma forward_not_broadcastable:
  assumes "broadcast_shapes (shape f) (shape x) = None"
  shows "CPUForgetMult_forward f x hidden_init = Inl RuntimeError"
proof (cases "split1 f")
  case (Inl e)
  then show ?thesis using split1_error[OF Inl] by (simp add: CPUForgetMult_forward_def)
next
  case (Inr forgets)
  then show ?thesis
    using binop_not_broadcastable[OF assms] by (simp add: CPUForgetMult_forward_def tmul_def)
qed

lemma forward_h0_not_broadcastable:
  assumes fi: "forward_inputs T BATCH HIDDEN f x None" and T: "0 < T"
    and nb: "broadcast_shapes [1, BATCH, HIDDEN] (shape h0) = None"
  shows "CPUForgetMult_forward f x (Some h0) = Inl RuntimeError"
proof -
  note r = forward_inputs_rows[OF fi]
  let ?s = "[BATCH, HIDDEN]" and ?dev = "device f"
  let ?n = "prod_list ?s"
  let ?frows = "f_rows T ?n f" and ?hrs = "fx_rows T ?n f x"
  let ?fxd = "map2 (\<lambda>u v. u * v) (data f) (data x)"
  have 1: "split1 f = Inr (map (mk_tensor (Suc 0 # ?s) ?dev) ?frows)"
    using r(1) T by (simp add: split1_rows f_rows_def comp_def)
  have 2: "tmul f x = Inr (mk_tensor (T # ?s) ?dev ?fxd)"
    unfolding tmul_def using r(1-5) by (subst binop_same) (simp_all add: mk_tensor_def)
  have 3: "split1 (mk_tensor (T # ?s) ?dev ?fxd) = Inr (map (mk_tensor (Suc 0 # ?s) ?dev) ?hrs)"
    using T by (simp add: split1_rows fx_rows_def comp_def)
  obtain hr hrs' where hrs: "?hrs = hr # hrs'"
    using T by (cases ?hrs) (simp_all add: fx_rows_def)
  obtain fr frows' where frows: "?frows = fr # frows'"
    using T by (cases ?frows) (simp_all add: f_rows_def)
  have "broadcast_shapes (shape (rsub 1 (mk_tensor (Suc 0 # ?s) ?dev fr))) (shape h0) = None"
    using nb by (simp add: rsub_mk)
  then have 4: "tmul (rsub 1 (mk_tensor (Suc 0 # ?s) ?dev fr)) h0 = Inl RuntimeError"
    unfolding tmul_def by (rule binop_not_broadcastable)
  have 5: "forward_loop (map (mk_tensor (Suc 0 # ?s) ?dev) ?frows) 0
             (map (mk_tensor (Suc 0 # ?s) ?dev) ?hrs) (Some h0) [] = Inl RuntimeError"
    unfolding hrs frows by (simp add: 4 del: mk_tensor_sel)
  show ?thesis
    unfolding CPUForgetMult_forward_def by (simp only: 1 2 3 5 sum.case)
qed


section \<open>The claims\<close>

subsection \<open>C1: the forward operation computes the recurrence\<close>

text \<open>
  C1 as stated covers every length \<open>T\<close>, also \<open>T = 0\<close>. On an empty sequence the
  sequential module does not return: \<^verbatim>\<open>split\<close> yields the empty tensor itself as its
  only chunk and \<^verbatim>\<open>view\<close> refuses to give its zero elements the shape
  \<open>(batch, hidden)\<close>.
\<close>

theorem forward_empty_sequence_fails:
  "CPUForgetMult_forward \<lparr>shape = [0, 1, 1], data = [], device = CPU\<rparr>
     \<lparr>shape = [0, 1, 1], data = [], device = CPU\<rparr>
     (Some \<lparr>shape = [1, 1], data = [0], device = CPU\<rparr>) = Inl RuntimeError"
  by code_simp

text \<open>
  C1, amended: for \<open>F\<close> and \<open>X\<close> of shape \<open>(T, batch, hidden)\<close> and an initial state of
  shape \<open>(batch, hidden)\<close> or none, the kernel, launched on a buffer of \<open>T + 1\<close> rows
  with sizes and thread coordinates in the range of the C type \<^verbatim>\<open>int\<close>
  (\<open>(T + 1) * hidden * batch < 2^31\<close>, coordinates below \<open>2^31\<close>), returns the buffer
  with row 0 (the initial state \<open>H[0]\<close>) untouched and
  \<open>H[t] = F[t] * X[t] + (1 - F[t]) * H[t-1]\<close> in every lane for \<open>t = 1..T\<close>, for every
  \<open>T\<close>; the sequential module returns, for \<open>T \<ge> 1\<close>, a tensor of shape
  \<open>(T, batch, hidden)\<close> whose rows \<open>H[1..T]\<close> satisfy the same recurrence from
  \<open>H[0] = H0\<close>, the zero matrix when \<open>hidden_init\<close> is absent.
\<close>

theorem forward_computes_recurrence:
  assumes "forward_inputs T BATCH HIDDEN f x hidden_init"
    and "length dst = (T + 1) * (HIDDEN * BATCH)"
    and "grid_covers BATCH HIDDEN threads"
  shows "(kernel_ints T BATCH HIDDEN threads \<longrightarrow>
            (\<exists>dst'. launch (recurrent_forget_mult (data f) (data x) T BATCH HIDDEN) threads dst = Some dst'
               \<and> take (HIDDEN * BATCH) dst' = take (HIDDEN * BATCH) dst
               \<and> hidden_sequence (HIDDEN * BATCH) T (data f) (data x) dst'))
       \<and> (0 < T \<longrightarrow>
            (\<exists>out. CPUForgetMult_forward f x hidden_init = Inr out
               \<and> shape out = [T, BATCH, HIDDEN] \<and> device out = device f
               \<and> hidden_sequence (HIDDEN * BATCH) T (data f) (data x)
                    (h0_data (HIDDEN * BATCH) hidden_init @ data out)))"
proof (intro conjI impI)
  note r = forward_inputs_rows[OF assms(1)]
  show "\<exists>dst'. launch (recurrent_forget_mult (data f) (data x) T BATCH HIDDEN) threads dst = Some dst'
            \<and> take (HIDDEN * BATCH) dst' = take (HIDDEN * BATCH) dst
            \<and> hidden_sequence (HIDDEN * BATCH) T (data f) (data x) dst'"
    by (rule launch_fwd_hidden_sequence[OF r(8,9) assms(2,3)])
next
  assume "0 < T"
  with assms(1) show "\<exists>out. CPUForgetMult_forward f x hidden_init = Inr out
               \<and> shape out = [T, BATCH, HIDDEN] \<and> device out = device f
               \<and> hidden_sequence (HIDDEN * BATCH) T (data f) (data x)
                    (h0_data (HIDDEN * BATCH) hidden_init @ data out)"
    by (rule cpu_forward_correct)
qed

theorem forward_computes_recurrence_witness:
  "forward_inputs 2 1 1 \<lparr>shape = [2, 1, 1], data = [1/2, 1/4], device = CPU\<rparr>
      \<lparr>shape = [2, 1, 1], data = [4, 8], device = CPU\<rparr> None
   \<and> length [0, 0, 0 :: real] = (2 + 1) * (1 * 1)
   \<and> grid_covers 1 1 [(0, 0)]
   \<and> kernel_ints 2 1 1 [(0, 0)]
   \<and> (\<exists>dst'. launch (recurrent_forget_mult [1/2, 1/4] [4, 8] 2 1 1) [(0, 0)] [0, 0, 0] = Some dst'
         \<and> take (1 * 1) dst' = take (1 * 1) [0, 0, 0]
         \<and> hidden_sequence (1 * 1) 2 [1/2, 1/4] [4, 8] dst')
   \<and> (\<exists>out. CPUForgetMult_forward \<lparr>shape = [2, 1, 1], data = [1/2, 1/4], device = CPU\<rparr>
                \<lparr>shape = [2, 1, 1], data = [4, 8], device = CPU\<rparr> None = Inr out
         \<and> shape out = [2, 1, 1] \<and> device out = CPU
         \<and> hidden_sequence (1 * 1) 2 [1/2, 1/4] [4, 8] (h0_data (1 * 1) None @ data out))"
proof -
  let ?f = "\<lparr>shape = [2, 1, 1], data = [1/2, 1/4 :: real], device = CPU\<rparr>"
  let ?x = "\<lparr>shape = [2, 1, 1], data = [4, 8 :: real], device = CPU\<rparr>"
  have 1: "forward_inputs 2 1 1 ?f ?x None"
    by (simp add: forward_inputs_def wf_tensor_def)
  have 2: "length [0, 0, 0 :: real] = (2 + 1) * (1 * 1)" by simp
  have 3: "grid_covers 1 1 [(0, 0)]" by (simp add: grid_covers_def)
  have 4: "(0::nat) < 2" by simp
  have 5: "kernel_ints 2 1 1 [(0, 0)]" by (simp add: kernel_ints_def)
  from forward_computes_recurrence[OF 1 2 3] 4 5 1 2 3 show ?thesis by simp
qed

subsection \<open>C3: the two backends compute the same sequence\<close>

text \<open>
  C3 as stated covers every shape. For \<open>T = 0\<close> the kernel leaves its buffer as it is
  (the hidden sequence \<open>H[1..T]\<close> is empty) while the sequential module fails.
\<close>

theorem backends_differ_on_empty_sequence:
  "CPUForgetMult_forward \<lparr>shape = [0, 1, 2], data = [], device = CPU\<rparr>
     \<lparr>shape = [0, 1, 2], data = [], device = CPU\<rparr> None = Inl RuntimeError
   \<and> launch (recurrent_forget_mult [] [] 0 1 2) [(0, 0), (1, 0)] [0, 0] = Some [0, 0]"
  by code_simp

text \<open>
  C3, amended: for \<open>T \<ge> 1\<close>, inputs of shape \<open>(T, batch, hidden)\<close>, sizes and thread
  coordinates in the range of the C type \<^verbatim>\<open>int\<close> (\<open>(T + 1) * hidden * batch < 2^31\<close>,
  coordinates below \<open>2^31\<close>) and a kernel buffer whose row 0 holds \<open>H0\<close> (zeros when
  \<open>hidden_init\<close> is absent), the rows \<open>1..T\<close> the kernel leaves in its buffer are the
  elements of the tensor the sequential module returns, equal in exact arithmetic.
\<close>

theorem backends_compute_same_sequence:
  assumes "forward_inputs T BATCH HIDDEN f x hidden_init" and "0 < T"
    and "kernel_ints T BATCH HIDDEN threads"
    and "length dst = (T + 1) * (HIDDEN * BATCH)"
    and "take (HIDDEN * BATCH) dst = h0_data (HIDDEN * BATCH) hidden_init"
    and "grid_covers BATCH HIDDEN threads"
  shows "\<exists>out dst'. CPUForgetMult_forward f x hidden_init = Inr out
           \<and> launch (recurrent_forget_mult (data f) (data x) T BATCH HIDDEN) threads dst = Some dst'
           \<and> shape out = [T, BATCH, HIDDEN]
           \<and> data out = drop (HIDDEN * BATCH) dst'"
  by (rule backends_agree[OF assms(1,2,4,5,6)])

theorem backends_compute_same_sequence_witness:
  "forward_inputs 2 1 1 \<lparr>shape = [2, 1, 1], data = [1/2, 1/4], device = CPU\<rparr>
      \<lparr>shape = [2, 1, 1], data = [4, 8], device = CPU\<rparr>
      (Some \<lparr>shape = [1, 1], data = [6], device = CPU\<rparr>)
   \<and> (0 :: nat) < 2
   \<and> kernel_ints 2 1 1 [(0, 0)]
   \<and> length [6, 0, 0 :: real] = (2 + 1) * (1 * 1)
   \<and> take (1 * 1) [6, 0, 0] = h0_data (1 * 1) (Some \<lparr>shape = [1, 1], data = [6], device = CPU\<rparr>)
   \<and> grid_covers 1 1 [(0, 0)]
   \<and> (\<exists>out dst'. CPUForgetMult_forward \<lparr>shape = [2, 1, 1], data = [1/2, 1/4], device = CPU\<rparr>
                \<lparr>shape = [2, 1, 1], data = [4, 8], device = CPU\<rparr>
                (Some \<lparr>shape = [1, 1], data = [6], device = CPU\<rparr>) = Inr out
         \<and> launch (recurrent_forget_mult [1/2, 1/4] [4, 8] 2 1 1) [(0, 0)] [6, 0, 0] = Some dst'
         \<and> shape out = [2, 1, 1]
         \<and> data out = drop (1 * 1) dst')"
proof -
  let ?f = "\<lparr>shape = [2, 1, 1], data = [1/2, 1/4 :: real], device = CPU\<rparr>"
  let ?x = "\<lparr>shape = [2, 1, 1], data = [4, 8 :: real], device = CPU\<rparr>"
  let ?h = "\<lparr>shape = [1, 1], data = [6 :: real], device = CPU\<rparr>"
  have 1: "forward_inputs 2 1 1 ?f ?x (Some ?h)"
    by (simp add: forward_inputs_def wf_tensor_def)
  have 2: "(0::nat) < 2" by simp
  have 3: "length [6, 0, 0 :: real] = (2 + 1) * (1 * 1)" by simp
  have 4: "take (1 * 1) [6, 0, 0] = h0_data (1 * 1) (Some ?h)" by (simp add: h0_data_def)
  have 5: "grid_covers 1 1 [(0, 0)]" by (simp add: grid_covers_def)
  have 6: "kernel_ints 2 1 1 [(0, 0)]" by (simp add: kernel_ints_def)
  from backends_compute_same_sequence[OF 1 2 6 3 4 5] 1 2 3 4 5 6 show ?thesis by simp
qed

subsection \<open>C4: the two forms of the attenuation step\<close>

text \<open>
  C4: the update \<open>acc - f * acc\<close> of the backward loop equals \<open>(1 - f) * acc\<close>, for all
  real \<open>acc\<close> and \<open>f\<close>.
\<close>

theorem attenuate_eq: "attenuate f_i acc = (1 - f_i) * acc"
  by (simp add: attenuate_def algebra_simps)

subsection \<open>C6: the concrete scenario\<close>

text \<open>
  C6: for \<open>T = 4\<close>, \<open>batch = hidden = 1\<close>, \<open>X = [0.75, 0.5, 0.9, 0.8]\<close>,
  \<open>F = [0.25, 0.25, 0.5, 0.4]\<close> and \<open>H0 = [0]\<close> the forward operation returns
  \<open>0.1875, 0.265625, 0.5828125, 0.6696875\<close> (as fractions \<open>3/16\<close>, \<open>17/64\<close>,
  \<open>373/640\<close>, \<open>2143/3200\<close>), from the sequential module and from the kernel alike;
  \<open>0.2656\<close>, \<open>0.5828\<close> and \<open>0.6697\<close> are these values to four decimals.
\<close>

theorem concrete_scenario:
  "CPUForgetMult_forward
      \<lparr>shape = [4, 1, 1], data = [1/4, 1/4, 1/2, 2/5], device = CPU\<rparr>
      \<lparr>shape = [4, 1, 1], data = [3/4, 1/2, 9/10, 4/5], device = CPU\<rparr>
      (Some \<lparr>shape = [1, 1], data = [0], device = CPU\<rparr>)
    = Inr \<lparr>shape = [4, 1, 1], data = [3/16, 17/64, 373/640, 2143/3200], device = CPU\<rparr>
   \<and> launch (recurrent_forget_mult [1/4, 1/4, 1/2, 2/5] [3/4, 1/2, 9/10, 4/5] 4 1 1) [(0, 0)]
        [0, 0, 0, 0, 0]
    = Some [0, 3/16, 17/64, 373/640, 2143/3200]
   \<and> (3/16 :: real) = 0.1875 \<and> (17/64 :: real) = 0.265625
   \<and> (373/640 :: real) = 0.5828125 \<and> (2143/3200 :: real) = 0.6696875
   \<and> \<bar>17/64 - 0.2656\<bar> \<le> (0.00005 :: real) \<and> \<bar>373/640 - 0.5828\<bar> \<le> (0.00005 :: real)
   \<and> \<bar>2143/3200 - 0.6697\<bar> \<le> (0.00005 :: real)"
  by code_simp

subsection \<open>C8: the selector and the placement of the operands\<close>

text \<open>
  C8 as stated: a request for the accelerated backend never falls back silently. With
  \<^verbatim>\<open>use_cuda=True\<close> on a system without CUDA the selector clears the flag and runs
  the sequential module on the CPU tensors, with no error.
\<close>

theorem selector_falls_back_without_cuda:
  "ForgetMult_forward False \<lparr>shape = [1, 1, 1], data = [1/2], device = CPU\<rparr>
     \<lparr>shape = [1, 1, 1], data = [4], device = CPU\<rparr> None True
   = Inr \<lparr>shape = [1, 1, 1], data = [2], device = CPU\<rparr>"
  by code_simp

text \<open>
  C8, amended: when the accelerated backend is requested and CUDA is available, the
  selector fails with the assertion error of its placement check if \<open>F\<close> or \<open>X\<close> is not
  on a CUDA device (the placement of \<open>H0\<close> is not checked); when CUDA is not available
  the request is dropped and the call is the sequential module's.
\<close>

theorem selector_placement:
  "(use_cuda \<and> \<not> (is_cuda f \<and> is_cuda x) \<longrightarrow>
      ForgetMult_forward True f x hidden_init use_cuda = Inl (AssertionError assert_message))
   \<and> ForgetMult_forward False f x hidden_init use_cuda = CPUForgetMult_forward f x hidden_init"
  by (simp add: ForgetMult_forward_def call_global_def lookup_global_def module_globals_def
      construct_and_call_def split: option.splits)

theorem selector_placement_witness:
  "True \<and> \<not> (is_cuda \<lparr>shape = [1, 1, 1], data = [1/2], device = CUDA 0\<rparr>
            \<and> is_cuda \<lparr>shape = [1, 1, 1], data = [4], device = CPU\<rparr>)
   \<and> ForgetMult_forward True \<lparr>shape = [1, 1, 1], data = [1/2], device = CUDA 0\<rparr>
        \<lparr>shape = [1, 1, 1], data = [4], device = CPU\<rparr> None True
      = Inl (AssertionError assert_message)
   \<and> ForgetMult_forward False \<lparr>shape = [1, 1, 1], data = [1/2], device = CUDA 0\<rparr>
        \<lparr>shape = [1, 1, 1], data = [4], device = CPU\<rparr> None True
      = CPUForgetMult_forward \<lparr>shape = [1, 1, 1], data = [1/2], device = CUDA 0\<rparr>
        \<lparr>shape = [1, 1, 1], data = [4], device = CPU\<rparr> None"
  using selector_placement[of True "\<lparr>shape = [1, 1, 1], data = [1/2], device = CUDA 0\<rparr>"
      "\<lparr>shape = [1, 1, 1], data = [4], device = CPU\<rparr>" None]
  by (simp add: is_cuda_def)

subsection \<open>C10: the accelerated branch names a class the file does not define\<close>

text \<open>
  C10: with \<^verbatim>\<open>use_cuda\<close> true, CUDA available and \<open>F\<close> and \<open>X\<close> on a CUDA device, the
  selector evaluates the name \<^verbatim>\<open>GPUForgetMult\<close>, which the module does not bind: the
  call raises \<^verbatim>\<open>NameError\<close> and no kernel runs, whatever the initial state.
\<close>

theorem accelerated_branch_raises_NameError:
  "is_cuda f \<Longrightarrow> is_cuda x \<Longrightarrow>
   map_of module_globals ''GPUForgetMult'' = None
   \<and> ForgetMult_forward True f x hidden_init True = Inl (NameError ''GPUForgetMult'')"
  by (simp add: ForgetMult_forward_def call_global_def lookup_global_def module_globals_def
      split: option.splits)

theorem accelerated_branch_raises_NameError_witness:
  "is_cuda \<lparr>shape = [1, 1, 1], data = [1/2], device = CUDA 0\<rparr>
   \<and> is_cuda \<lparr>shape = [1, 1, 1], data = [4], device = CUDA 0\<rparr>
   \<and> map_of module_globals ''GPUForgetMult'' = None
   \<and> ForgetMult_forward True \<lparr>shape = [1, 1, 1], data = [1/2], device = CUDA 0\<rparr>
        \<lparr>shape = [1, 1, 1], data = [4], device = CUDA 0\<rparr> None True
      = Inl (NameError ''GPUForgetMult'')"
proof -
  have 1: "is_cuda \<lparr>shape = [1, 1, 1], data = [1/2], device = CUDA 0\<rparr>"
    and 2: "is_cuda \<lparr>shape = [1, 1, 1], data = [4], device = CUDA 0\<rparr>"
    by (simp_all add: is_cuda_def)
  from accelerated_branch_raises_NameError[OF 1 2, of None] 1 2 show ?thesis by simp
qed

subsection \<open>C2: the backward kernel computes the reverse scan\<close>



subsection \<open>C5: an absent initial state is the zero matrix\<close>

text \<open>
  C5 as stated covers every \<open>F\<close> and \<open>X\<close> and every call of forward. On an empty
  sequence neither call returns a hidden sequence, with or without the zero initial
  state, and on the accelerated path neither call returns at all.
\<close>

theorem absent_initial_state_no_sequence:
  "CPUForgetMult_forward \<lparr>shape = [0, 3, 1], data = [], device = CPU\<rparr>
     \<lparr>shape = [0, 3, 1], data = [], device = CPU\<rparr> None = Inl RuntimeError
   \<and> CPUForgetMult_forward \<lparr>shape = [0, 3, 1], data = [], device = CPU\<rparr>
     \<lparr>shape = [0, 3, 1], data = [], device = CPU\<rparr> (Some (zeros [3, 1] CPU)) = Inl RuntimeError
   \<and> ForgetMult_forward True \<lparr>shape = [1, 1, 1], data = [1/2], device = CUDA 0\<rparr>
     \<lparr>shape = [1, 1, 1], data = [4], device = CUDA 0\<rparr> None True
     = Inl (NameError ''GPUForgetMult'')
   \<and> ForgetMult_forward True \<lparr>shape = [1, 1, 1], data = [1/2], device = CUDA 0\<rparr>
     \<lparr>shape = [1, 1, 1], data = [4], device = CUDA 0\<rparr> (Some (zeros [1, 1] (CUDA 0))) True
     = Inl (NameError ''GPUForgetMult'')"
  by code_simp

text \<open>
  C5, amended: for \<open>F\<close> and \<open>X\<close> of shape \<open>(T, batch, hidden)\<close> with \<open>T \<ge> 1\<close>, on the
  sequential path (the sequential module, and the selector when \<^verbatim>\<open>use_cuda\<close> is false
  or CUDA is not available), forward with no initial state and forward with the
  all-zero \<open>H0\<close> of shape \<open>(batch, hidden)\<close> return the same tensor \<open>out\<close>, of shape
  \<open>(T, batch, hidden)\<close>, and its rows are the hidden sequence of the recurrence from
  \<open>H[0] = 0\<close> (exact arithmetic).
\<close>

theorem absent_initial_state_is_zero:
  assumes "forward_inputs T BATCH HIDDEN f x None" and "0 < T"
    and "\<not> (use_cuda \<and> cuda_is_available)"
  shows "\<exists>out. CPUForgetMult_forward f x None = Inr out
           \<and> CPUForgetMult_forward f x (Some (zeros [BATCH, HIDDEN] (device f))) = Inr out
           \<and> ForgetMult_forward cuda_is_available f x None use_cuda = Inr out
           \<and> ForgetMult_forward cuda_is_available f x (Some (zeros [BATCH, HIDDEN] (device f)))
                use_cuda = Inr out
           \<and> shape out = [T, BATCH, HIDDEN]
           \<and> hidden_sequence (HIDDEN * BATCH) T (data f) (data x)
                (replicate (HIDDEN * BATCH) 0 @ data out)"
proof -
  from cpu_forward_correct[OF assms(1,2)] obtain out where
    o: "CPUForgetMult_forward f x None = Inr out" "shape out = [T, BATCH, HIDDEN]"
      "hidden_sequence (HIDDEN * BATCH) T (data f) (data x) (h0_data (HIDDEN * BATCH) None @ data out)"
    by blast
  have z: "CPUForgetMult_forward f x (Some (zeros [BATCH, HIDDEN] (device f))) = Inr out"
    using cpu_none_eq_zeros[OF assms(1)] o(1) by simp
  have sel: "ForgetMult_forward cuda_is_available f x hi use_cuda = CPUForgetMult_forward f x hi" for hi
    using assms(3)
    by (auto simp: ForgetMult_forward_def Let_def call_global_def lookup_global_def
        module_globals_def construct_and_call_def split: option.splits)
  have "hidden_sequence (HIDDEN * BATCH) T (data f) (data x) (replicate (HIDDEN * BATCH) 0 @ data out)"
    using o(3) by (simp add: h0_data_def)
  then show ?thesis using o(1,2) z sel by simp
qed

theorem absent_initial_state_is_zero_witness:
  "forward_inputs 2 1 1 \<lparr>shape = [2, 1, 1], data = [1/2, 1/4], device = CPU\<rparr>
      \<lparr>shape = [2, 1, 1], data = [4, 8], device = CPU\<rparr> None
   \<and> (0 :: nat) < 2 \<and> \<not> (True \<and> False)
   \<and> (\<exists>out. CPUForgetMult_forward \<lparr>shape = [2, 1, 1], data = [1/2, 1/4], device = CPU\<rparr>
          \<lparr>shape = [2, 1, 1], data = [4, 8], device = CPU\<rparr> None = Inr out
        \<and> CPUForgetMult_forward \<lparr>shape = [2, 1, 1], data = [1/2, 1/4], device = CPU\<rparr>
          \<lparr>shape = [2, 1, 1], data = [4, 8], device = CPU\<rparr> (Some (zeros [1, 1] CPU)) = Inr out
        \<and> ForgetMult_forward False \<lparr>shape = [2, 1, 1], data = [1/2, 1/4], device = CPU\<rparr>
          \<lparr>shape = [2, 1, 1], data = [4, 8], device = CPU\<rparr> None True = Inr out
        \<and> ForgetMult_forward False \<lparr>shape = [2, 1, 1], data = [1/2, 1/4], device = CPU\<rparr>
          \<lparr>shape = [2, 1, 1], data = [4, 8], device = CPU\<rparr> (Some (zeros [1, 1] CPU)) True = Inr out
        \<and> shape out = [2, 1, 1]
        \<and> hidden_sequence (1 * 1) 2 [1/2, 1/4] [4, 8] (replicate (1 * 1) 0 @ data out))"
proof -
  let ?f = "\<lparr>shape = [2, 1, 1], data = [1/2, 1/4 :: real], device = CPU\<rparr>"
  let ?x = "\<lparr>shape = [2, 1, 1], data = [4, 8 :: real], device = CPU\<rparr>"
  have 1: "forward_inputs 2 1 1 ?f ?x None"
    by (simp add: forward_inputs_def wf_tensor_def)
  have 2: "(0::nat) < 2" by simp
  have 3: "\<not> (True \<and> False)" by simp
  from absent_initial_state_is_zero[OF 1 2 3] 1 2 3 show ?thesis by simp
qed

subsection \<open>C7: the empty sequence\<close>

text \<open>
  C7 as stated: for \<open>T = 0\<close> the forward operation succeeds with an empty output. The
  sequential module raises instead.
\<close>

theorem sequential_forward_rejects_length_zero:
  "CPUForgetMult_forward \<lparr>shape = [0, 2, 3], data = [], device = CPU\<rparr>
     \<lparr>shape = [0, 2, 3], data = [], device = CPU\<rparr> None = Inl RuntimeError"
  by code_simp

text \<open>
  C7, amended: for \<open>T = 0\<close>, with \<open>hidden * batch < 2^31\<close> and thread coordinates below
  \<open>2^31\<close> (the range of the C type \<^verbatim>\<open>int\<close>), the two kernels succeed: the forward
  kernel leaves its buffer, which holds \<open>H0\<close> only, as it is (the output sequence
  \<open>H[1..T]\<close> is empty), and the backward kernel with an empty \<open>gH\<close> leaves \<open>dF\<close> and \<open>dX\<close>
  empty and returns \<open>dH0\<close> equal to the zero accumulator in every lane. The sequential
  module \<^verbatim>\<open>CPUForgetMult.forward\<close> fails with a \<^verbatim>\<open>RuntimeError\<close> for \<open>T = 0\<close>
  whenever \<open>batch * hidden > 0\<close>.
\<close>

theorem empty_sequence:
  assumes "forward_inputs 0 BATCH HIDDEN f x hidden_init"
    and "length dst = HIDDEN * BATCH" and "length h = HIDDEN * BATCH"
    and "gf g = []" and "gx g = []" and "length (ghinit g) = HIDDEN * BATCH"
    and "grid_covers BATCH HIDDEN threads"
  shows "(kernel_ints 0 BATCH HIDDEN threads \<longrightarrow>
            launch (recurrent_forget_mult (data f) (data x) 0 BATCH HIDDEN) threads dst = Some dst
            \<and> launch (bwd_recurrent_forget_mult h [] [] [] 0 BATCH HIDDEN) threads g
               = Some (g\<lparr>ghinit := replicate (HIDDEN * BATCH) 0\<rparr>))
       \<and> (0 < BATCH * HIDDEN \<longrightarrow> CPUForgetMult_forward f x hidden_init = Inl RuntimeError)"
proof (intro conjI impI)
  note r = forward_inputs_rows[OF assms(1)]
  have ld: "length dst = (0 + 1) * (HIDDEN * BATCH)" using assms(2) by simp
  from launch_fwd_hidden_sequence[OF r(8,9) ld assms(7)]
  obtain dst' where d: "launch (recurrent_forget_mult (data f) (data x) 0 BATCH HIDDEN) threads dst = Some dst'"
    "take (HIDDEN * BATCH) dst' = take (HIDDEN * BATCH) dst"
    "hidden_sequence (HIDDEN * BATCH) 0 (data f) (data x) dst'"
    by blast
  have "length dst' = HIDDEN * BATCH" using d(3) by (simp add: hidden_sequence_def)
  then have "dst' = dst" using d(2) assms(2) by simp
  then show "launch (recurrent_forget_mult (data f) (data x) 0 BATCH HIDDEN) threads dst = Some dst"
    using d(1) by simp
next
  have lh: "length h = (0 + 1) * (HIDDEN * BATCH)" using assms(3) by simp
  have le: "length ([] :: real list) = 0 * (HIDDEN * BATCH)" by simp
  have lg: "length (gf g) = 0 * (HIDDEN * BATCH)" "length (gx g) = 0 * (HIDDEN * BATCH)"
    using assms(4,5) by simp_all
  from launch_bwd_result[OF lh le le le lg assms(6,7)]
  obtain g' where g': "launch (bwd_recurrent_forget_mult h [] [] [] 0 BATCH HIDDEN) threads g = Some g'"
    "backward_result (HIDDEN * BATCH) 0 h [] [] [] g'"
    by blast
  have "gf g' = []" "gx g' = []" "length (ghinit g') = HIDDEN * BATCH"
    "\<forall>l < HIDDEN * BATCH. ghinit g' ! l = 0"
    using g'(2) by (simp_all add: backward_result_def bwd_lane_ok_def)
  moreover from this have "ghinit g' = replicate (HIDDEN * BATCH) 0"
    by (intro nth_equalityI) simp_all
  ultimately have "g' = g\<lparr>ghinit := replicate (HIDDEN * BATCH) 0\<rparr>"
    using assms(4,5) by (cases g', cases g) simp
  then show "launch (bwd_recurrent_forget_mult h [] [] [] 0 BATCH HIDDEN) threads g
          = Some (g\<lparr>ghinit := replicate (HIDDEN * BATCH) 0\<rparr>)"
    using g'(1) by simp
next
  assume "0 < BATCH * HIDDEN"
  note r = forward_inputs_rows[OF assms(1)]
  from empty_forward[OF r(1,2,3,4,5,6)] \<open>0 < BATCH * HIDDEN\<close>
  show "CPUForgetMult_forward f x hidden_init = Inl RuntimeError" by simp
qed

theorem empty_sequence_witness:
  "forward_inputs 0 1 2 \<lparr>shape = [0, 1, 2], data = [], device = CPU\<rparr>
      \<lparr>shape = [0, 1, 2], data = [], device = CPU\<rparr>
      (Some \<lparr>shape = [1, 2], data = [5, 6], device = CPU\<rparr>)
   \<and> length [5, 6 :: real] = 2 * 1 \<and> length [5, 6 :: real] = 2 * 1
   \<and> gf \<lparr>gf = [], gx = [], ghinit = [7, 7]\<rparr> = []
   \<and> gx \<lparr>gf = [], gx = [], ghinit = [7, 7]\<rparr> = []
   \<and> length (ghinit \<lparr>gf = [], gx = [], ghinit = [7, 7]\<rparr>) = 2 * 1
   \<and> grid_covers 1 2 [(0, 0), (1, 0)]
   \<and> kernel_ints 0 1 2 [(0, 0), (1, 0)]
   \<and> (0 :: nat) < 1 * 2
   \<and> launch (recurrent_forget_mult [] [] 0 1 2) [(0, 0), (1, 0)] [5, 6] = Some [5, 6]
   \<and> launch (bwd_recurrent_forget_mult [5, 6] [] [] [] 0 1 2) [(0, 0), (1, 0)]
        \<lparr>gf = [], gx = [], ghinit = [7, 7]\<rparr>
      = Some \<lparr>gf = [], gx = [], ghinit = [0, 0]\<rparr>
   \<and> CPUForgetMult_forward \<lparr>shape = [0, 1, 2], data = [], device = CPU\<rparr>
        \<lparr>shape = [0, 1, 2], data = [], device = CPU\<rparr>
        (Some \<lparr>shape = [1, 2], data = [5, 6], device = CPU\<rparr>) = Inl RuntimeError"
proof -
  let ?e = "\<lparr>shape = [0, 1, 2], data = [] :: real list, device = CPU\<rparr>"
  let ?h = "\<lparr>shape = [1, 2], data = [5, 6 :: real], device = CPU\<rparr>"
  let ?g = "\<lparr>gf = [] :: real list, gx = [] :: real list, ghinit = [7, 7 :: real]\<rparr>"
  have 1: "forward_inputs 0 1 2 ?e ?e (Some ?h)"
    by (simp add: forward_inputs_def wf_tensor_def)
  have 2: "length [5, 6 :: real] = 2 * 1" by simp
  have 3: "gf ?g = []" and 4: "gx ?g = []" and 5: "length (ghinit ?g) = 2 * 1" by simp_all
  have 6: "grid_covers 1 2 [(0, 0), (1, 0)]"
    by (simp add: grid_covers_def atLeastLessThan_def lessThan_def less_Suc_eq numeral_2_eq_2)
  have 7: "replicate (2 * 1) (0 :: real) = [0, 0]" by (simp add: numeral_2_eq_2)
  have 8: "kernel_ints 0 1 2 [(0, 0), (1, 0)]" by (simp add: kernel_ints_def)
  have 9: "(0 :: nat) < 1 * 2" by simp
  from empty_sequence[OF 1 2 2 3 4 5 6] 1 2 3 4 5 6 7 8 9 show ?thesis by simp
qed

subsection \<open>C9: shapes that do not match\<close>

text \<open>
  C9 as stated: inputs whose shapes differ are refused. The module checks no shape; the
  elementwise operations of the tensor library broadcast, so an \<open>F\<close> of shape
  \<open>(1, 1, 1)\<close> is accepted with an \<open>X\<close> of shape \<open>(1, 1, 2)\<close>, and an \<open>H0\<close> of shape \<open>(1)\<close>
  with \<open>F\<close> and \<open>X\<close> of shape \<open>(1, 1, 2)\<close>.
\<close>

theorem differing_shapes_accepted:
  "CPUForgetMult_forward \<lparr>shape = [1, 1, 1], data = [1/2], device = CPU\<rparr>
     \<lparr>shape = [1, 1, 2], data = [4, 8], device = CPU\<rparr> None
   = Inr \<lparr>shape = [1, 1, 2], data = [2, 4], device = CPU\<rparr>
   \<and> CPUForgetMult_forward \<lparr>shape = [1, 1, 2], data = [1/2, 1/2], device = CPU\<rparr>
     \<lparr>shape = [1, 1, 2], data = [4, 8], device = CPU\<rparr>
     (Some \<lparr>shape = [1], data = [2], device = CPU\<rparr>)
   = Inr \<lparr>shape = [1, 1, 2], data = [3, 5], device = CPU\<rparr>"
  by code_simp

text \<open>
  Shapes that differ and can be broadcast are not accepted in general either: an \<open>F\<close> of
  shape \<open>(1, 1, 1)\<close> with an \<open>X\<close> of shape \<open>(2, 1, 1)\<close> runs out of gates in the second
  iteration, and an \<open>H0\<close> of shape \<open>(2, 1, 1)\<close> yields a state that \<^verbatim>\<open>view\<close> refuses.
\<close>

lemma broadcastable_shapes_may_fail:
  "CPUForgetMult_forward \<lparr>shape = [1, 1, 1], data = [1/2], device = CPU\<rparr>
     \<lparr>shape = [2, 1, 1], data = [4, 8], device = CPU\<rparr> None = Inl IndexError
   \<and> CPUForgetMult_forward \<lparr>shape = [1, 1, 1], data = [1/2], device = CPU\<rparr>
     \<lparr>shape = [1, 1, 1], data = [4], device = CPU\<rparr>
     (Some \<lparr>shape = [2, 1, 1], data = [1, 2], device = CPU\<rparr>) = Inl RuntimeError"
  by code_simp

text \<open>
  C9, amended: the forward operation fails, with the \<^verbatim>\<open>RuntimeError\<close> of the tensor
  library and without output, whenever the shapes of \<open>F\<close> and \<open>X\<close> cannot be broadcast
  together, and, for \<open>F\<close> and \<open>X\<close> of shape \<open>(T, batch, hidden)\<close> with \<open>T \<ge> 1\<close>, whenever
  the shape of \<open>H0\<close> cannot be broadcast with \<open>(1, batch, hidden)\<close>; the selector,
  called with \<^verbatim>\<open>use_cuda\<close> false, fails in the same way. The statement is about
  shapes that cannot be broadcast only.
\<close>

theorem incompatible_shapes_fail:
  "(broadcast_shapes (shape f) (shape x) = None \<longrightarrow>
      CPUForgetMult_forward f x hidden_init = Inl RuntimeError
      \<and> ForgetMult_forward cuda_is_available f x hidden_init False = Inl RuntimeError)
   \<and> (forward_inputs T BATCH HIDDEN f x None \<and> 0 < T
        \<and> broadcast_shapes [1, BATCH, HIDDEN] (shape h0) = None \<longrightarrow>
      CPUForgetMult_forward f x (Some h0) = Inl RuntimeError
      \<and> ForgetMult_forward cuda_is_available f x (Some h0) False = Inl RuntimeError)"
proof -
  have sel: "ForgetMult_forward cuda_is_available f x hi False = CPUForgetMult_forward f x hi" for hi
    by (simp add: ForgetMult_forward_def Let_def call_global_def lookup_global_def
        module_globals_def construct_and_call_def split: option.splits)
  show ?thesis
    unfolding sel using forward_not_broadcastable[of f x hidden_init]
      forward_h0_not_broadcastable[of T BATCH HIDDEN f x h0]
    by blast
qed

theorem incompatible_shapes_fail_witness:
  "broadcast_shapes (shape \<lparr>shape = [1, 1, 2], data = [1/2, 1/2], device = CPU\<rparr>)
      (shape \<lparr>shape = [1, 1, 3], data = [4, 8, 9], device = CPU\<rparr>) = None
   \<and> CPUForgetMult_forward \<lparr>shape = [1, 1, 2], data = [1/2, 1/2], device = CPU\<rparr>
        \<lparr>shape = [1, 1, 3], data = [4, 8, 9], device = CPU\<rparr> None = Inl RuntimeError
   \<and> ForgetMult_forward True \<lparr>shape = [1, 1, 2], data = [1/2, 1/2], device = CPU\<rparr>
        \<lparr>shape = [1, 1, 3], data = [4, 8, 9], device = CPU\<rparr> None False = Inl RuntimeError
   \<and> forward_inputs 1 1 2 \<lparr>shape = [1, 1, 2], data = [1/2, 1/2], device = CPU\<rparr>
        \<lparr>shape = [1, 1, 2], data = [4, 8], device = CPU\<rparr> None
   \<and> (0 :: nat) < 1
   \<and> broadcast_shapes [1, 1, 2] (shape \<lparr>shape = [3], data = [1, 2, 3], device = CPU\<rparr>) = None
   \<and> CPUForgetMult_forward \<lparr>shape = [1, 1, 2], data = [1/2, 1/2], device = CPU\<rparr>
        \<lparr>shape = [1, 1, 2], data = [4, 8], device = CPU\<rparr>
        (Some \<lparr>shape = [3], data = [1, 2, 3], device = CPU\<rparr>) = Inl RuntimeError
   \<and> ForgetMult_forward True \<lparr>shape = [1, 1, 2], data = [1/2, 1/2], device = CPU\<rparr>
        \<lparr>shape = [1, 1, 2], data = [4, 8], device = CPU\<rparr>
        (Some \<lparr>shape = [3], data = [1, 2, 3], device = CPU\<rparr>) False = Inl RuntimeError"
proof -
  let ?f = "\<lparr>shape = [1, 1, 2], data = [1/2, 1/2 :: real], device = CPU\<rparr>"
  let ?x3 = "\<lparr>shape = [1, 1, 3], data = [4, 8, 9 :: real], device = CPU\<rparr>"
  let ?x = "\<lparr>shape = [1, 1, 2], data = [4, 8 :: real], device = CPU\<rparr>"
  let ?h = "\<lparr>shape = [3], data = [1, 2, 3 :: real], device = CPU\<rparr>"
  have 1: "broadcast_shapes (shape ?f) (shape ?x3) = None"
    by (simp add: broadcast_shapes_def pad_shape_def broadcastable_def)
  have 2: "forward_inputs 1 1 2 ?f ?x None"
    by (simp add: forward_inputs_def wf_tensor_def)
  have 3: "(0 :: nat) < 1" by simp
  have 4: "broadcast_shapes [1, 1, 2] (shape ?h) = None"
    by (simp add: broadcast_shapes_def pad_shape_def broadcastable_def)
  from incompatible_shapes_fail[of ?f ?x3 None True 1 1 2 ?h]
    incompatible_shapes_fail[of ?f ?x None True 1 1 2 ?h] 1 2 3 4
  show ?thesis by simp
qed

end
